theory Spec2Isabelle
  imports Complex_Main "HOL-Library.Sublist" "HOL-Library.AList" "HOL-Library.List_Lexorder"
    "HOL-Library.Char_ord" "HOL-Library.Product_Lexorder"
begin

section \<open>Text: character classes and the regular-expression substitutions\<close>

text \<open>
  A Python \<^verbatim>\<open>str\<close> is modelled as a \<^typ>\<open>string\<close> whose characters are the code points
  0..255. The classes below are the ones Python's \<^verbatim>\<open>re\<close> module uses for \<^verbatim>\<open>\s\<close> and \<^verbatim>\<open>\w\<close> on
  a \<^verbatim>\<open>str\<close> pattern, restricted to that range; \<^verbatim>\<open>\S\<close> is the complement of \<^verbatim>\<open>\s\<close>.
\<close>

definition is_space :: "char \<Rightarrow> bool" where
  "is_space c =
     (let n = (of_char c :: nat)
      in (9 \<le> n \<and> n \<le> 13) \<or> (28 \<le> n \<and> n \<le> 32) \<or> n = 133 \<or> n = 160)"

definition is_word :: "char \<Rightarrow> bool" where
  "is_word c =
     (let n = (of_char c :: nat)
      in (48 \<le> n \<and> n \<le> 57) \<or> (65 \<le> n \<and> n \<le> 90) \<or> n = 95 \<or> (97 \<le> n \<and> n \<le> 122)
         \<or> n = 170 \<or> n = 178 \<or> n = 179 \<or> n = 181 \<or> n = 185 \<or> n = 186
         \<or> (188 \<le> n \<and> n \<le> 190) \<or> (192 \<le> n \<and> n \<le> 214) \<or> (216 \<le> n \<and> n \<le> 246)
         \<or> 248 \<le> n)"

text \<open>\<^verbatim>\<open>str.lower()\<close> on the code points 0..255: A-Z and the Latin-1 capitals move up by 32.\<close>

definition lower_char :: "char \<Rightarrow> char" where
  "lower_char c =
     (let n = (of_char c :: nat)
      in if (65 \<le> n \<and> n \<le> 90) \<or> (192 \<le> n \<and> n \<le> 214) \<or> (216 \<le> n \<and> n \<le> 222)
         then char_of (n + 32) else c)"

definition lower :: "string \<Rightarrow> string" where
  "lower s = map lower_char s"

text \<open>
  \<^verbatim>\<open>re.sub(pattern, repl, s)\<close>: scan from the left; where the pattern matches, emit \<^verbatim>\<open>repl\<close> and
  go on behind the match; elsewhere copy one character. A matcher returns the length of the
  match that starts at the head of its argument. None of the five patterns of
  \<^verbatim>\<open>clean_tweet\<close> matches the empty string, so a length of 0 is treated as no match.
\<close>

function re_sub :: "(string \<Rightarrow> nat option) \<Rightarrow> string \<Rightarrow> string \<Rightarrow> string" where
  "re_sub m repl [] = []"
| "re_sub m repl (c # cs) =
     (case m (c # cs) of
        None \<Rightarrow> c # re_sub m repl cs
      | Some n \<Rightarrow> if n = 0 then c # re_sub m repl cs
                 else repl @ re_sub m repl (drop n (c # cs)))"
  by pat_completeness auto
termination
  by (relation "measure (\<lambda>(m, repl, s). length s)") auto

text \<open>A literal followed by \<^verbatim>\<open>\S+\<close> (greedy): the literal, then the whole run of non-whitespace.\<close>

definition lit_nonspace :: "string \<Rightarrow> string \<Rightarrow> nat option" where
  "lit_nonspace p s =
     (if take (length p) s = p \<and> length p \<le> length s
      then (case takeWhile (\<lambda>c. \<not> is_space c) (drop (length p) s) of
              [] \<Rightarrow> None
            | r # rs \<Rightarrow> Some (length p + length (r # rs)))
      else None)"

text \<open>\<^verbatim>\<open>http\S+|www\S+|https\S+\<close>: the alternatives are tried in this order.\<close>

definition url_pat :: "string \<Rightarrow> nat option" where
  "url_pat s =
     (case lit_nonspace ''http'' s of
        Some n \<Rightarrow> Some n
      | None \<Rightarrow> (case lit_nonspace ''www'' s of
                   Some n \<Rightarrow> Some n
                 | None \<Rightarrow> lit_nonspace ''https'' s))"

text \<open>\<^verbatim>\<open>@\w+\<close>\<close>

definition mention_pat :: "string \<Rightarrow> nat option" where
  "mention_pat s =
     (case s of
        [] \<Rightarrow> None
      | c # cs \<Rightarrow> if c = CHR ''@''
                  then (case takeWhile is_word cs of
                          [] \<Rightarrow> None
                        | r # rs \<Rightarrow> Some (1 + length (r # rs)))
                  else None)"

text \<open>A pattern of one character of a class: \<^verbatim>\<open>#\<close> and \<^verbatim>\<open>[^\w\s]\<close>.\<close>

definition class_pat :: "(char \<Rightarrow> bool) \<Rightarrow> string \<Rightarrow> nat option" where
  "class_pat P s = (case s of [] \<Rightarrow> None | c # cs \<Rightarrow> if P c then Some 1 else None)"

text \<open>\<^verbatim>\<open>\s+\<close>\<close>

definition spaces_pat :: "string \<Rightarrow> nat option" where
  "spaces_pat s = (case takeWhile is_space s of [] \<Rightarrow> None | r # rs \<Rightarrow> Some (length (r # rs)))"

text \<open>\<^verbatim>\<open>str.strip()\<close> removes the whitespace at both ends.\<close>

definition strip :: "string \<Rightarrow> string" where
  "strip s = rev (dropWhile is_space (rev (dropWhile is_space s)))"

section \<open>Cells: the values a data frame holds\<close>

text \<open>
  \<^verbatim>\<open>NaN\<close> is the missing value (pandas' NaN, and Python's \<^verbatim>\<open>None\<close> in a frame), \<^verbatim>\<open>Str\<close> a
  \<^verbatim>\<open>str\<close>, \<^verbatim>\<open>Num\<close> an int or a float (floats are taken as reals: rounding is not modelled),
  \<^verbatim>\<open>Lst\<close> a list of strings, \<^verbatim>\<open>Dict\<close> a dict with string keys. \<^verbatim>\<open>Json v\<close> stands for the
  \<^verbatim>\<open>str\<close> that \<^verbatim>\<open>json.dumps(v)\<close> returns: the text itself is not spelled out, only the value
  it encodes. \<^verbatim>\<open>Opaque\<close> is any other Python object (one that \<^verbatim>\<open>json.dumps\<close> rejects).
\<close>

datatype cell =
    NaN
  | Str string
  | Num real
  | Bool bool
  | Lst "string list"
  | Dict "(string \<times> cell) list"
  | Json cell
  | Opaque

section \<open>sentiment\_analyzer.py\<close>

subsection \<open>clean\_tweet\<close>

definition clean_str :: "string \<Rightarrow> string" where
  "clean_str tweet =
     (let t1 = re_sub url_pat [] tweet;
          t2 = re_sub mention_pat [] t1;
          t3 = re_sub (class_pat (\<lambda>c. c = CHR ''#'')) [] t2;
          t4 = re_sub (class_pat (\<lambda>c. \<not> is_word c \<and> \<not> is_space c)) [] t3
      in strip (re_sub spaces_pat '' '' t4))"

text \<open>
  The argument is \<^verbatim>\<open>Some s\<close> for a \<^verbatim>\<open>str\<close> and \<^verbatim>\<open>None\<close> for any other object
  (\<^verbatim>\<open>isinstance(tweet, str)\<close> fails: a missing text is a float NaN).
\<close>

fun clean_tweet :: "string option \<Rightarrow> string" where
  "clean_tweet None = []"
| "clean_tweet (Some tweet) = clean_str tweet"

subsection \<open>analyze\_sentiment\_textblob, analyze\_sentiment\_vader: the category\<close>

datatype category = positive | negative | neutral

text \<open>
  The libraries that compute the scores are outside the repository; the category is the
  repository's own step function of the score. Scores are reals.
\<close>

definition textblob_category :: "real \<Rightarrow> category" where
  "textblob_category polarity =
     (if polarity > 0 then positive else (if polarity < 0 then negative else neutral))"

definition vader_category :: "real \<Rightarrow> category" where
  "vader_category compound =
     (if compound \<ge> 0.05 then positive else (if compound \<le> - 0.05 then negative else neutral))"

subsection \<open>extract\_mental\_health\_terms\<close>

text \<open>\<^verbatim>\<open>a in b\<close> on strings: \<^verbatim>\<open>a\<close> occurs in \<^verbatim>\<open>b\<close> as a contiguous block.\<close>

fun str_in :: "string \<Rightarrow> string \<Rightarrow> bool" where
  "str_in a [] = (a = [])"
| "str_in a (c # cs) = (take (length a) (c # cs) = a \<or> str_in a cs)"

text \<open>The loop over the vocabulary, appending to \<^verbatim>\<open>found_terms\<close>.\<close>

fun extract_loop :: "string \<Rightarrow> string list \<Rightarrow> string list \<Rightarrow> string list" where
  "extract_loop text_lower [] found_terms = found_terms"
| "extract_loop text_lower (term # rest) found_terms =
     (if str_in (lower term) text_lower
      then extract_loop text_lower rest (found_terms @ [term])
      else extract_loop text_lower rest found_terms)"

definition extract_mental_health_terms :: "string \<Rightarrow> string list \<Rightarrow> string list" where
  "extract_mental_health_terms text mental_health_terms =
     extract_loop (lower text) mental_health_terms []"

text \<open>\<^verbatim>\<open>len(x) > 0\<close>, the flag \<^verbatim>\<open>contains_mental_health_term\<close> of a row.\<close>

definition contains_term :: "string list \<Rightarrow> bool" where
  "contains_term x = (length x > 0)"


subsection \<open>process\_tweet\_file\<close>

text \<open>
  Exceptions are values. \<^verbatim>\<open>except Exception\<close> and the bare \<^verbatim>\<open>except\<close> of the sources catch
  every one of them.
\<close>

datatype exn =
    KeyError | ValueError | TypeError | AttributeError | SyntaxError | JSONDecodeError
  | OperationalError | IntegrityError | ProgrammingError | IOError | OtherError

definition ebind :: "exn + 'a \<Rightarrow> ('a \<Rightarrow> exn + 'b) \<Rightarrow> exn + 'b" where
  "ebind m f = (case m of Inl e \<Rightarrow> Inl e | Inr x \<Rightarrow> f x)"

text \<open>\<^verbatim>\<open>Series.apply(f)\<close>: \<^verbatim>\<open>f\<close> on every element in order; the first exception ends it.\<close>

fun apply_e :: "('a \<Rightarrow> exn + 'b) \<Rightarrow> 'a list \<Rightarrow> exn + 'b list" where
  "apply_e f [] = Inr []"
| "apply_e f (x # xs) = ebind (f x) (\<lambda>y. ebind (apply_e f xs) (\<lambda>ys. Inr (y # ys)))"

text \<open>
  One record of the JSON file. \<^verbatim>\<open>text_field\<close> is the value under the key \<^verbatim>\<open>text\<close>:
  \<^verbatim>\<open>Missing\<close> when the record has no such key, \<^verbatim>\<open>NotStr\<close> when the value is not a
  \<^verbatim>\<open>str\<close>. \<^verbatim>\<open>other\<close> stands for the record's remaining fields, which the function copies.
\<close>

datatype text_field = Missing | NotStr | Txt string

record 'a tweet =
  text_field :: text_field
  other :: 'a

record textblob_result =
  polarity :: real
  subjectivity :: real
  tb_sentiment_category :: category

record vader_result =
  compound :: real
  vd_positive :: real
  vd_negative :: real
  vd_neutral :: real
  vd_sentiment_category :: category

text \<open>
  TextBlob and VADER are external: \<^verbatim>\<open>tb text\<close> is what
  \<^verbatim>\<open>TextBlob(text).sentiment\<close> yields (polarity, subjectivity) and \<^verbatim>\<open>vd text\<close> what
  \<^verbatim>\<open>polarity_scores(text)\<close> yields (compound, pos, neg, neu), or the exception raised.
\<close>

record scorers =
  tb :: "string \<Rightarrow> exn + real \<times> real"
  vd :: "string \<Rightarrow> exn + real \<times> real \<times> real \<times> real"

definition analyze_sentiment_textblob :: "scorers \<Rightarrow> string \<Rightarrow> exn + textblob_result" where
  "analyze_sentiment_textblob sc text =
     ebind (tb sc text) (\<lambda>(p, s).
       Inr \<lparr>polarity = p, subjectivity = s, tb_sentiment_category = textblob_category p\<rparr>)"

definition analyze_sentiment_vader :: "scorers \<Rightarrow> string \<Rightarrow> exn + vader_result" where
  "analyze_sentiment_vader sc text =
     ebind (vd sc text) (\<lambda>(c, pos, neg, neu).
       Inr \<lparr>compound = c, vd_positive = pos, vd_negative = neg, vd_neutral = neu,
            vd_sentiment_category = vader_category c\<rparr>)"

definition vocabulary :: "string list" where
  "vocabulary =
     [''mental health'', ''anxiety'', ''depression'', ''stress'', ''therapy'',
      ''self care'', ''mindfulness'', ''burnout'', ''mental wellbeing'',
      ''mental illness'', ''panic attack'', ''insomnia'', ''mental wellness'']"

record 'a processed =
  source :: "'a tweet"
  cleaned_text :: string
  textblob :: textblob_result
  vader :: vader_result
  mental_health_terms_found :: "string list"
  contains_mental_health_term :: bool

text \<open>\<^verbatim>\<open>df['text']\<close>: the column exists when at least one record has the key.\<close>

definition text_cell :: "'a tweet \<Rightarrow> string option" where
  "text_cell t = (case text_field t of Txt s \<Rightarrow> Some s | _ \<Rightarrow> None)"

definition text_column :: "'a tweet list \<Rightarrow> exn + string option list" where
  "text_column tweets =
     (if list_all (\<lambda>t. text_field t = Missing) tweets then Inl KeyError
      else Inr (map text_cell tweets))"

fun zip_rows ::
  "'a tweet list \<Rightarrow> string list \<Rightarrow> textblob_result list \<Rightarrow> vader_result list
     \<Rightarrow> 'a processed list" where
  "zip_rows (t # ts) (c # cs) (b # bs) (v # vs) =
     \<lparr>source = t, cleaned_text = c, textblob = b, vader = v,
      mental_health_terms_found = extract_mental_health_terms c vocabulary,
      contains_mental_health_term =
        contains_term (extract_mental_health_terms c vocabulary)\<rparr> # zip_rows ts cs bs vs"
| "zip_rows _ _ _ _ = []"

text \<open>
  \<^verbatim>\<open>file\<close> is what \<^verbatim>\<open>json.load\<close> yields (the list of records) or the exception of
  \<^verbatim>\<open>open\<close>/\<^verbatim>\<open>json.load\<close>; \<^verbatim>\<open>to_csv\<close> is the exception of writing the output file, if any.
  The result is the returned frame, \<^verbatim>\<open>None\<close> as in the source; when rows are returned the
  same rows have been written to the CSV file. The test
  \<^verbatim>\<open>'text' not in df.columns and isinstance(df.iloc[0], dict)\<close> is never true
  (\<^verbatim>\<open>df.iloc[0]\<close> is a Series), so a frame without the column fails at \<^verbatim>\<open>df['text']\<close>.
\<close>

definition process_rows :: "scorers \<Rightarrow> 'a tweet list \<Rightarrow> exn + 'a processed list" where
  "process_rows sc tweets =
     ebind (text_column tweets) (\<lambda>texts.
       let cleaned = map clean_tweet texts
       in ebind (apply_e (analyze_sentiment_textblob sc) cleaned) (\<lambda>textblob_sentiments.
            ebind (apply_e (analyze_sentiment_vader sc) cleaned) (\<lambda>vader_sentiments.
              Inr (zip_rows tweets cleaned textblob_sentiments vader_sentiments))))"

definition process_tweet_file ::
  "scorers \<Rightarrow> exn option \<Rightarrow> exn + 'a tweet list \<Rightarrow> 'a processed list option" where
  "process_tweet_file sc to_csv file =
     (case file of
        Inl e \<Rightarrow> None
      | Inr tweets \<Rightarrow>
          if tweets = [] then None
          else (case process_rows sc tweets of
                  Inl e \<Rightarrow> None
                | Inr df \<Rightarrow> (case to_csv of Some e \<Rightarrow> None | None \<Rightarrow> Some df)))"


subsection \<open>Concrete inputs for process\_tweet\_file\<close>

text \<open>A scorer pair whose first scorer raises on the text \<^verbatim>\<open>bad\<close>, and a file of two records.\<close>

definition demo_scorers :: scorers where
  "demo_scorers =
     \<lparr>tb = (\<lambda>t. if t = ''bad'' then Inl OtherError else Inr (1 / 2, 1 / 2)),
      vd = (\<lambda>t. Inr (1 / 2, 1 / 2, 0, 1 / 2))\<rparr>"

definition bad_tweet :: "unit tweet" where
  "bad_tweet = \<lparr>text_field = Txt ''bad!'', other = ()\<rparr>"

definition good_tweet :: "unit tweet" where
  "good_tweet = \<lparr>text_field = Txt ''a good day'', other = ()\<rparr>"

text \<open>A record whose text names two terms of the vocabulary, one of them in capitals.\<close>

definition tagged_tweet :: "unit tweet" where
  "tagged_tweet = \<lparr>text_field = Txt ''Such ANXIETY, so much stress!'', other = ()\<rparr>"

section \<open>database\_setup.py\<close>

subsection \<open>Data frames\<close>

text \<open>
  A frame has \<^verbatim>\<open>nrows\<close> rows and named columns, each a list of cells. \<^verbatim>\<open>pd.read_csv\<close> yields
  frames with distinct labels, every column of \<^verbatim>\<open>nrows\<close> cells, each cell a \<^verbatim>\<open>NaN\<close>,
  \<^verbatim>\<open>Str\<close>, \<^verbatim>\<open>Num\<close> or \<^verbatim>\<open>Bool\<close>.
\<close>

record frame =
  nrows :: nat
  cols :: "(string \<times> cell list) list"

definition columns :: "frame \<Rightarrow> string list" where
  "columns df = map fst (cols df)"

definition has_col :: "string \<Rightarrow> frame \<Rightarrow> bool" where
  "has_col c df = (c \<in> set (columns df))"

text \<open>\<^verbatim>\<open>df[c]\<close> raises KeyError when there is no such column.\<close>

definition get_col :: "string \<Rightarrow> frame \<Rightarrow> exn + cell list" where
  "get_col c df = (case map_of (cols df) c of None \<Rightarrow> Inl KeyError | Some v \<Rightarrow> Inr v)"

text \<open>\<^verbatim>\<open>df[c] = v\<close> replaces the column in place or appends it as the last one.\<close>

definition set_col :: "string \<Rightarrow> cell list \<Rightarrow> frame \<Rightarrow> frame" where
  "set_col c v df = df\<lparr>cols := AList.update c v (cols df)\<rparr>"

definition set_scalar :: "string \<Rightarrow> cell \<Rightarrow> frame \<Rightarrow> frame" where
  "set_scalar c x df = set_col c (replicate (nrows df) x) df"

definition rename_col :: "string \<Rightarrow> string \<Rightarrow> frame \<Rightarrow> frame" where
  "rename_col old new df =
     df\<lparr>cols := map (\<lambda>kv. (if fst kv = old then new else fst kv, snd kv)) (cols df)\<rparr>"

text \<open>\<^verbatim>\<open>df[[c1, ..., cn]]\<close> raises KeyError when one of the columns is missing.\<close>

fun select_cols :: "string list \<Rightarrow> frame \<Rightarrow> exn + (string \<times> cell list) list" where
  "select_cols [] df = Inr []"
| "select_cols (c # cs) df =
     ebind (get_col c df) (\<lambda>v. ebind (select_cols cs df) (\<lambda>r. Inr ((c, v) # r)))"

definition select :: "string list \<Rightarrow> frame \<Rightarrow> exn + frame" where
  "select cs df = ebind (select_cols cs df) (\<lambda>r. Inr \<lparr>nrows = nrows df, cols = r\<rparr>)"

subsection \<open>The connection\<close>

text \<open>
  A table of the store: its columns with their data, and the column that carries a PRIMARY
  KEY or UNIQUE constraint, if any. The term table is kept apart, one row per term:
  \<^verbatim>\<open>(term_text, category, occurrence_count)\<close>, the \<^verbatim>\<open>term_id\<close> being the position; it is
  \<^verbatim>\<open>None\<close> while the table does not exist. SQLite's conversion of stored values to the
  column's declared type is not modelled: cells are stored as they are.

  A connection has the committed state of the database and its own working state, which
  holds the writes not yet committed. The fields \<^verbatim>\<open>tbl_tweets\<close>, \<^verbatim>\<open>tbl_tweet_sentiment\<close>,
  \<^verbatim>\<open>tbl_user_metrics\<close> and \<^verbatim>\<open>tbl_mental_health_terms\<close> are the tables \<^verbatim>\<open>tweets\<close>,
  \<^verbatim>\<open>tweet_sentiment\<close>, \<^verbatim>\<open>user_metrics\<close> and \<^verbatim>\<open>mental_health_terms\<close>.
\<close>

record table =
  tframe :: frame
  tkey :: "string option"

record db =
  tbl_tweets :: "table option"
  tbl_tweet_sentiment :: "table option"
  tbl_user_metrics :: "table option"
  tbl_mental_health_terms :: "(string \<times> string \<times> int) list option"

record conn =
  committed :: db
  working :: db

definition commit :: "conn \<Rightarrow> conn" where
  "commit c = c\<lparr>committed := working c\<rparr>"

definition rollback :: "conn \<Rightarrow> conn" where
  "rollback c = c\<lparr>working := committed c\<rparr>"

definition get_table :: "string \<Rightarrow> db \<Rightarrow> table option" where
  "get_table name d =
     (if name = ''tweets'' then tbl_tweets d
      else if name = ''tweet_sentiment'' then tbl_tweet_sentiment d
      else if name = ''user_metrics'' then tbl_user_metrics d
      else None)"

definition put_table :: "string \<Rightarrow> table \<Rightarrow> db \<Rightarrow> db" where
  "put_table name t d =
     (if name = ''tweets'' then d\<lparr>tbl_tweets := Some t\<rparr>
      else if name = ''tweet_sentiment'' then d\<lparr>tbl_tweet_sentiment := Some t\<rparr>
      else if name = ''user_metrics'' then d\<lparr>tbl_user_metrics := Some t\<rparr>
      else d)"

text \<open>The values sqlite3 can bind as parameters; a list or a dict raises ProgrammingError.\<close>

fun storable :: "cell \<Rightarrow> bool" where
  "storable (Lst l) = False"
| "storable (Dict d) = False"
| "storable Opaque = False"
| "storable _ = True"

text \<open>NULLs are exempt from the uniqueness of a key column.\<close>

definition key_ok :: "string option \<Rightarrow> frame \<Rightarrow> bool" where
  "key_ok k fr =
     (case k of
        None \<Rightarrow> True
      | Some c \<Rightarrow> (case map_of (cols fr) c of
                     None \<Rightarrow> True
                   | Some v \<Rightarrow> distinct (filter (\<lambda>x. x \<noteq> NaN) v)))"

text \<open>
  \<^verbatim>\<open>INSERT INTO t (the frame's columns) VALUES ...\<close> for every row of the frame: a column the
  table does not have is an OperationalError, a repeated key an IntegrityError; a table
  column the frame does not have is filled with NULL.
\<close>

definition insert_rows :: "table \<Rightarrow> frame \<Rightarrow> exn + table" where
  "insert_rows t f =
     (if \<not> set (columns f) \<subseteq> set (columns (tframe t)) then Inl OperationalError
      else if \<not> list_all storable (concat (map snd (cols f))) then Inl ProgrammingError
      else
        let new = \<lparr>nrows = nrows (tframe t) + nrows f,
                   cols = map (\<lambda>cv. (fst cv, snd cv @
                                 (case map_of (cols f) (fst cv) of
                                    Some w \<Rightarrow> w
                                  | None \<Rightarrow> replicate (nrows f) NaN)))
                            (cols (tframe t))\<rparr>
        in if key_ok (tkey t) new then Inr (t\<lparr>tframe := new\<rparr>) else Inl IntegrityError)"

text \<open>
  \<^verbatim>\<open>frame.to_sql(name, conn, if_exists='append', index=False)\<close> on a sqlite3 connection.
  pandas creates the table from the frame's columns (without a key) when it does not
  exist, and commits that; it returns at once for a frame without rows; otherwise it runs
  the inserts in a transaction of its own: commit when they succeed, rollback and re-raise
  when they fail. The commit and the rollback are the connection's, so they also take
  along whatever else was pending on it.
\<close>

definition to_sql :: "string \<Rightarrow> frame \<Rightarrow> conn \<Rightarrow> conn \<times> exn option" where
  "to_sql name f c =
     (let created = \<lparr>tframe = \<lparr>nrows = 0, cols = map (\<lambda>k. (k, [])) (columns f)\<rparr>,
                     tkey = None\<rparr>;
          t = (case get_table name (working c) of Some t \<Rightarrow> t | None \<Rightarrow> created);
          c1 = (case get_table name (working c) of
                  Some t \<Rightarrow> c
                | None \<Rightarrow> commit (c\<lparr>working := put_table name created (working c)\<rparr>))
      in if nrows f = 0 then (c1, None)
         else (case insert_rows t f of
                 Inl e \<Rightarrow> (rollback c1, Some e)
               | Inr t' \<Rightarrow> (commit (c1\<lparr>working := put_table name t' (working c1)\<rparr>), None)))"

subsection \<open>create\_database\<close>

definition new_table :: "string list \<Rightarrow> string \<Rightarrow> table" where
  "new_table cs k = \<lparr>tframe = \<lparr>nrows = 0, cols = map (\<lambda>c. (c, [])) cs\<rparr>, tkey = Some k\<rparr>"

text \<open>The four \<^verbatim>\<open>CREATE TABLE IF NOT EXISTS\<close> statements, then \<^verbatim>\<open>conn.commit()\<close>.\<close>

definition create_database :: "conn \<Rightarrow> conn" where
  "create_database c =
     (let d = working c;
          d1 = (case tbl_tweets d of
                  Some t \<Rightarrow> d
                | None \<Rightarrow> d\<lparr>tbl_tweets := Some (new_table
                    [''tweet_id'', ''tweet_text'', ''cleaned_text'', ''created_at'',
                     ''collected_at'', ''search_keyword'', ''username'', ''retweet_count'',
                     ''favorite_count''] ''tweet_id'')\<rparr>);
          d2 = (case tbl_tweet_sentiment d1 of
                  Some t \<Rightarrow> d1
                | None \<Rightarrow> d1\<lparr>tbl_tweet_sentiment := Some (new_table
                    [''tweet_id'', ''textblob_polarity'', ''textblob_subjectivity'',
                     ''textblob_category'', ''vader_compound'', ''vader_positive'',
                     ''vader_negative'', ''vader_neutral'', ''vader_category'',
                     ''contains_mental_health_term'', ''mental_health_terms''] ''tweet_id'')\<rparr>);
          d3 = (case tbl_user_metrics d2 of
                  Some t \<Rightarrow> d2
                | None \<Rightarrow> d2\<lparr>tbl_user_metrics := Some (new_table
                    [''username'', ''tweet_count'', ''avg_textblob_polarity'',
                     ''avg_vader_compound'', ''mental_health_tweet_count'',
                     ''avg_engagement''] ''username'')\<rparr>);
          d4 = (case tbl_mental_health_terms d3 of
                  Some r \<Rightarrow> d3
                | None \<Rightarrow> d3\<lparr>tbl_mental_health_terms := Some []\<rparr>)
      in commit (c\<lparr>working := d4\<rparr>))"

text \<open>A connection to a database file that does not exist yet.\<close>

definition empty_db :: db where
  "empty_db = \<lparr>tbl_tweets = None, tbl_tweet_sentiment = None, tbl_user_metrics = None,
               tbl_mental_health_terms = None\<rparr>"

definition fresh_conn :: conn where
  "fresh_conn = \<lparr>committed = empty_db, working = empty_db\<rparr>"

subsection \<open>import\_processed\_data: reconciling the frame\<close>

text \<open>
  What the function takes from outside the repository: the clock (\<^verbatim>\<open>clock c\<close> is the text
  of \<^verbatim>\<open>datetime.now().isoformat()\<close> read when column \<^verbatim>\<open>c\<close> is filled), Python's \<^verbatim>\<open>eval\<close> and
  \<^verbatim>\<open>json.loads\<close>, each giving a value or the exception it raises. Their values are cells,
  so a list that holds anything but strings is outside the model.
\<close>

record env =
  clock :: "string \<Rightarrow> string"
  py_eval :: "string \<Rightarrow> exn + cell"
  json_loads :: "string \<Rightarrow> exn + cell"

definition required_columns :: "string list" where
  "required_columns =
     [''tweet_id'', ''text'', ''cleaned_text'', ''created_at'', ''collected_at'',
      ''search_keyword'', ''textblob_polarity'', ''textblob_subjectivity'',
      ''textblob_category'', ''vader_compound'', ''vader_positive'',
      ''vader_negative'', ''vader_neutral'', ''vader_category'',
      ''mental_health_terms'', ''contains_mental_health_term'']"

fun digit_char :: "nat \<Rightarrow> char" where
  "digit_char n = char_of (48 + n)"

text \<open>\<^verbatim>\<open>str(n)\<close> for a row index.\<close>

fun str_of_nat :: "nat \<Rightarrow> string" where
  "str_of_nat n =
     (if n < 10 then [digit_char n] else str_of_nat (n div 10) @ [digit_char (n mod 10)])"

definition isna :: "cell \<Rightarrow> bool" where
  "isna x = (x = NaN)"

text \<open>
  The body of the loop over \<^verbatim>\<open>required_columns\<close> for a column the frame does not have.
  The branch for \<^verbatim>\<open>mental_health_terms\<close> reads \<^verbatim>\<open>df[col]\<close>, the very column that is missing.
\<close>

definition default_column :: "env \<Rightarrow> string \<Rightarrow> frame \<Rightarrow> exn + frame" where
  "default_column ev col df =
     (if col = ''tweet_id'' then
        Inr (set_col ''tweet_id'' (map (\<lambda>i. Str (str_of_nat i)) [0..<nrows df]) df)
      else if col \<in> set [''created_at'', ''collected_at''] then
        Inr (set_scalar col (Str (clock ev col)) df)
      else if col = ''search_keyword'' then
        Inr (set_scalar col (Str ''unknown'') df)
      else if col \<in> set [''textblob_polarity'', ''textblob_subjectivity'', ''vader_compound'',
                          ''vader_positive'', ''vader_negative'', ''vader_neutral''] then
        Inr (set_scalar col (Num 0) df)
      else if col \<in> set [''textblob_category'', ''vader_category''] then
        Inr (set_scalar col (Str ''neutral'') df)
      else if col = ''mental_health_terms'' then
        ebind (get_col col df)
          (\<lambda>v. Inr (set_col col (map (\<lambda>x. if isna x then Str ''[]'' else x) v) df))
      else if col = ''contains_mental_health_term'' then
        Inr (set_scalar col (Num 0) df)
      else
        Inr (set_scalar col (Str '''') df))"

fun fill_missing :: "env \<Rightarrow> string list \<Rightarrow> frame \<Rightarrow> exn + frame" where
  "fill_missing ev [] df = Inr df"
| "fill_missing ev (col # rest) df =
     (if \<not> has_col col df then ebind (default_column ev col df) (fill_missing ev rest)
      else fill_missing ev rest df)"

text \<open>\<^verbatim>\<open>json.dumps\<close> raises TypeError on an object it cannot serialise.\<close>

fun serialisable :: "cell \<Rightarrow> bool" where
  "serialisable Opaque = False"
| "serialisable (Dict d) = list_all (\<lambda>kv. serialisable (snd kv)) d"
| "serialisable (Json v) = True"
| "serialisable _ = True"

definition json_dumps :: "cell \<Rightarrow> exn + cell" where
  "json_dumps v = (if serialisable v then Inr (Json v) else Inl TypeError)"

definition starts_with_bracket :: "string \<Rightarrow> bool" where
  "starts_with_bracket x = (take 1 x = ''['')"

text \<open>
  The lambda applied to every cell of \<^verbatim>\<open>mental_health_terms\<close>. A \<^verbatim>\<open>Json\<close> cell is a \<^verbatim>\<open>str\<close>;
  its text starts with \<^verbatim>\<open>[\<close> exactly when it encodes a list, and a JSON list of strings
  evaluates, as a Python expression, to that list.
\<close>

fun coerce_terms :: "env \<Rightarrow> cell \<Rightarrow> exn + cell" where
  "coerce_terms ev (Lst l) = json_dumps (Lst l)"
| "coerce_terms ev (Str x) =
     (if starts_with_bracket x then ebind (py_eval ev x) json_dumps else json_dumps (Lst []))"
| "coerce_terms ev (Json v) =
     (case v of Lst l \<Rightarrow> json_dumps (Lst l) | _ \<Rightarrow> json_dumps (Lst []))"
| "coerce_terms ev _ = json_dumps (Lst [])"

definition dict_get :: "(string \<times> cell) list \<Rightarrow> string \<Rightarrow> cell \<Rightarrow> cell" where
  "dict_get d k dflt = (case map_of d k of None \<Rightarrow> dflt | Some v \<Rightarrow> v)"

text \<open>
  The lambda applied to every cell of \<^verbatim>\<open>user\<close>. \<^verbatim>\<open>.get\<close> on a value that is not a dict is an
  AttributeError.
\<close>

fun username_of :: "env \<Rightarrow> cell \<Rightarrow> exn + cell" where
  "username_of ev (Dict d) = Inr (dict_get d ''username'' (Str ''''))"
| "username_of ev (Str x) =
     ebind (json_loads ev x)
       (\<lambda>v. case v of Dict d \<Rightarrow> Inr (dict_get d ''username'' (Str ''''))
                     | _ \<Rightarrow> Inl AttributeError)"
| "username_of ev (Json v) =
     (case v of Dict d \<Rightarrow> Inr (dict_get d ''username'' (Str ''''))
              | _ \<Rightarrow> Inl AttributeError)"
| "username_of ev _ = Inr (Str '''')"

definition extract_username :: "env \<Rightarrow> frame \<Rightarrow> frame" where
  "extract_username ev df =
     (if has_col ''user'' df \<and> \<not> has_col ''username'' df then
        (case ebind (get_col ''user'' df) (apply_e (username_of ev)) of
           Inr v \<Rightarrow> set_col ''username'' v df
         | Inl e \<Rightarrow> set_scalar ''username'' (Str '''') df)
      else df)"

text \<open>
  Lines 108 to 153: rename, fill the missing columns, coerce the term lists, derive the
  user name. A frame that has both an \<^verbatim>\<open>id\<close> and a \<^verbatim>\<open>tweet_id\<close> column has two columns of
  one label after the renaming; such frames are outside the model, which stops there.
\<close>

definition reconcile :: "env \<Rightarrow> frame \<Rightarrow> exn + frame" where
  "reconcile ev df0 =
     (let df1 = (if has_col ''id'' df0 then rename_col ''id'' ''tweet_id'' df0 else df0)
      in if \<not> distinct (columns df1) then Inl ValueError
         else
           ebind (fill_missing ev required_columns df1) (\<lambda>df2.
           ebind (if has_col ''mental_health_terms'' df2
                  then ebind (get_col ''mental_health_terms'' df2) (\<lambda>v.
                       ebind (apply_e (coerce_terms ev) v) (\<lambda>w.
                         Inr (set_col ''mental_health_terms'' w df2)))
                  else Inr df2) (\<lambda>df3.
           Inr (extract_username ev df3))))"

subsection \<open>import\_processed\_data: the frames written\<close>

definition tweets_frame :: "frame \<Rightarrow> exn + frame" where
  "tweets_frame df =
     ebind (select [''tweet_id'', ''text'', ''cleaned_text'', ''created_at'',
                    ''collected_at'', ''search_keyword'', ''username''] df) (\<lambda>tweets_df.
     ebind (if has_col ''retweet_count'' df
            then ebind (get_col ''retweet_count'' df)
                   (\<lambda>v. Inr (set_col ''retweet_count'' v tweets_df))
            else Inr (set_scalar ''retweet_count'' (Num 0) tweets_df)) (\<lambda>tweets_df1.
     if has_col ''favorite_count'' df
     then ebind (get_col ''favorite_count'' df)
            (\<lambda>v. Inr (set_col ''favorite_count'' v tweets_df1))
     else Inr (set_scalar ''favorite_count'' (Num 0) tweets_df1)))"

definition sentiment_frame :: "frame \<Rightarrow> exn + frame" where
  "sentiment_frame df =
     select [''tweet_id'', ''textblob_polarity'', ''textblob_subjectivity'',
             ''textblob_category'', ''vader_compound'', ''vader_positive'',
             ''vader_negative'', ''vader_neutral'', ''vader_category'',
             ''contains_mental_health_term'', ''mental_health_terms''] df"

subsection \<open>import\_processed\_data: the term counts\<close>

text \<open>
  What one row adds to \<^verbatim>\<open>all_terms\<close>. Decoding a \<^verbatim>\<open>Json\<close> cell gives back the value it
  encodes; any exception is swallowed by the \<^verbatim>\<open>except: pass\<close> of the loop.
\<close>

fun terms_of :: "env \<Rightarrow> cell \<Rightarrow> string list" where
  "terms_of ev (Json v) = (case v of Lst l \<Rightarrow> l | _ \<Rightarrow> [])"
| "terms_of ev (Str x) = (case json_loads ev x of Inr (Lst l) \<Rightarrow> l | _ \<Rightarrow> [])"
| "terms_of ev (Lst l) = l"
| "terms_of ev _ = []"

definition all_terms :: "env \<Rightarrow> frame \<Rightarrow> exn + string list" where
  "all_terms ev df =
     ebind (get_col ''mental_health_terms'' df) (\<lambda>v. Inr (concat (map (terms_of ev) v)))"

definition count_get :: "(string \<times> int) list \<Rightarrow> string \<Rightarrow> int" where
  "count_get term_counts term = (case map_of term_counts term of None \<Rightarrow> 0 | Some n \<Rightarrow> n)"

text \<open>The dict \<^verbatim>\<open>term_counts\<close>, in insertion order.\<close>

fun count_terms :: "string list \<Rightarrow> (string \<times> int) list \<Rightarrow> (string \<times> int) list" where
  "count_terms [] term_counts = term_counts"
| "count_terms (term # rest) term_counts =
     count_terms rest (AList.update term (count_get term_counts term + 1) term_counts)"

text \<open>
  \<^verbatim>\<open>INSERT ... VALUES (term, 'general', count) ON CONFLICT(term_text) DO UPDATE SET
  occurrence_count = occurrence_count + count\<close>
\<close>

definition upsert_term ::
  "string \<Rightarrow> int \<Rightarrow> (string \<times> string \<times> int) list \<Rightarrow> (string \<times> string \<times> int) list" where
  "upsert_term term n rows =
     (if term \<in> set (map fst rows)
      then map (\<lambda>r. if fst r = term then (fst r, fst (snd r), snd (snd r) + n) else r) rows
      else rows @ [(term, ''general'', n)])"

text \<open>
  The loop over \<^verbatim>\<open>term_counts.items()\<close>. \<^verbatim>\<open>cursor.execute\<close> writes to the working state
  only; without the table it raises OperationalError.
\<close>

fun update_terms :: "(string \<times> int) list \<Rightarrow> conn \<Rightarrow> conn \<times> exn option" where
  "update_terms [] c = (c, None)"
| "update_terms ((term, n) # rest) c =
     (case tbl_mental_health_terms (working c) of
        None \<Rightarrow> (c, Some OperationalError)
      | Some rows \<Rightarrow>
          update_terms rest
            (c\<lparr>working := (working c)\<lparr>tbl_mental_health_terms := Some (upsert_term term n rows)\<rparr>\<rparr>))"

subsection \<open>import\_processed\_data: the user metrics\<close>

text \<open>
  \<^verbatim>\<open>df.groupby('username')\<close>: rows whose key is missing belong to no group; the keys come
  sorted; a list or a dict as key is a TypeError. \<^verbatim>\<open>True\<close> and \<^verbatim>\<open>1\<close> are the same key.
\<close>

fun hashable :: "cell \<Rightarrow> bool" where
  "hashable (Lst l) = False"
| "hashable (Dict d) = False"
| "hashable Opaque = False"
| "hashable _ = True"

fun norm_key :: "cell \<Rightarrow> cell" where
  "norm_key (Bool b) = Num (if b then 1 else 0)"
| "norm_key x = x"

fun key_rank :: "cell \<Rightarrow> nat \<times> real \<times> string" where
  "key_rank (Num r) = (0, r, [])"
| "key_rank (Str x) = (1, 0, x)"
| "key_rank _ = (2, 0, [])"

definition group_keys :: "cell list \<Rightarrow> cell list" where
  "group_keys us = sort_key key_rank (remdups (map norm_key (filter (\<lambda>u. \<not> isna u) us)))"

definition group_of :: "cell \<Rightarrow> cell list \<Rightarrow> cell list \<Rightarrow> cell list" where
  "group_of k us xs = map snd (filter (\<lambda>ux. norm_key (fst ux) = k) (zip us xs))"

text \<open>
  The aggregations skip missing values; \<^verbatim>\<open>mean\<close> and \<^verbatim>\<open>sum\<close> take numbers and booleans and
  raise TypeError on anything else (what pandas makes of a column of strings under
  \<^verbatim>\<open>sum\<close> is not modelled). The mean of no value is missing.
\<close>

fun num_of :: "cell \<Rightarrow> exn + real" where
  "num_of (Num r) = Inr r"
| "num_of (Bool b) = Inr (if b then 1 else 0)"
| "num_of _ = Inl TypeError"

definition numeric_values :: "cell list \<Rightarrow> exn + real list" where
  "numeric_values xs = apply_e num_of (filter (\<lambda>x. \<not> isna x) xs)"

definition agg_count :: "cell list \<Rightarrow> cell" where
  "agg_count xs = Num (real (length (filter (\<lambda>x. \<not> isna x) xs)))"

definition agg_mean :: "cell list \<Rightarrow> exn + cell" where
  "agg_mean xs =
     ebind (numeric_values xs)
       (\<lambda>vs. Inr (if vs = [] then NaN else Num (sum_list vs / real (length vs))))"

definition agg_sum :: "cell list \<Rightarrow> exn + cell" where
  "agg_sum xs = ebind (numeric_values xs) (\<lambda>vs. Inr (Num (sum_list vs)))"

text \<open>\<^verbatim>\<open>(retweet_count + favorite_count) / 2\<close> on the two means.\<close>

fun half_sum :: "cell \<Rightarrow> cell \<Rightarrow> cell" where
  "half_sum (Num a) (Num b) = Num ((a + b) / 2)"
| "half_sum _ _ = NaN"

text \<open>The groups, one row each, from the columns the aggregation reads.\<close>

definition aggregate_groups ::
  "cell list \<Rightarrow> cell list \<Rightarrow> cell list \<Rightarrow> cell list \<Rightarrow> cell list \<Rightarrow> cell list
     \<Rightarrow> cell list \<Rightarrow> exn + frame" where
  "aggregate_groups us ids pol com con rts favs =
     (if \<not> list_all hashable us then Inl TypeError
      else
        ebind (apply_e (\<lambda>k. agg_mean (group_of k us pol)) (group_keys us)) (\<lambda>avg_pol.
        ebind (apply_e (\<lambda>k. agg_mean (group_of k us com)) (group_keys us)) (\<lambda>avg_com.
        ebind (apply_e (\<lambda>k. agg_sum (group_of k us con)) (group_keys us)) (\<lambda>mh_count.
        ebind (apply_e (\<lambda>k. agg_mean (group_of k us rts)) (group_keys us)) (\<lambda>avg_rt.
        ebind (apply_e (\<lambda>k. agg_mean (group_of k us favs)) (group_keys us)) (\<lambda>avg_fav.
          Inr \<lparr>nrows = length (group_keys us),
               cols = [(''username'', group_keys us),
                       (''tweet_count'',
                        map (\<lambda>k. agg_count (group_of k us ids)) (group_keys us)),
                       (''avg_textblob_polarity'', avg_pol),
                       (''avg_vader_compound'', avg_com),
                       (''mental_health_tweet_count'', mh_count),
                       (''avg_engagement'', map2 half_sum avg_rt avg_fav)]\<rparr>))))))"

text \<open>
  \<^verbatim>\<open>df.groupby('username').agg({...})\<close> with the renaming and the engagement column: a
  column the frame does not have is a KeyError.
\<close>

definition user_metrics_frame :: "frame \<Rightarrow> exn + frame" where
  "user_metrics_frame df =
     ebind (get_col ''username'' df) (\<lambda>us.
     ebind (get_col ''tweet_id'' df) (\<lambda>ids.
     ebind (get_col ''textblob_polarity'' df) (\<lambda>pol.
     ebind (get_col ''vader_compound'' df) (\<lambda>com.
     ebind (get_col ''contains_mental_health_term'' df) (\<lambda>con.
     ebind (get_col ''retweet_count'' df) (\<lambda>rts.
     ebind (get_col ''favorite_count'' df) (\<lambda>favs.
       aggregate_groups us ids pol com con rts favs)))))))"

subsection \<open>import\_processed\_data\<close>

text \<open>
  The body of the \<^verbatim>\<open>try\<close>: the connection it leaves behind, and the exception raised or the
  value returned. \<^verbatim>\<open>csv\<close> is what \<^verbatim>\<open>pd.read_csv(csv_file)\<close> yields.
\<close>

definition import_body :: "env \<Rightarrow> conn \<Rightarrow> exn + frame \<Rightarrow> conn \<times> (exn + nat)" where
  "import_body ev c csv =
     (case ebind csv (reconcile ev) of
        Inl e \<Rightarrow> (c, Inl e)
      | Inr df \<Rightarrow>
     (case tweets_frame df of
        Inl e \<Rightarrow> (c, Inl e)
      | Inr tweets_df \<Rightarrow>
     (case to_sql ''tweets'' tweets_df c of
        (c1, Some e) \<Rightarrow> (c1, Inl e)
      | (c1, None) \<Rightarrow>
     (case sentiment_frame df of
        Inl e \<Rightarrow> (c1, Inl e)
      | Inr sentiment_df \<Rightarrow>
     (case to_sql ''tweet_sentiment'' sentiment_df c1 of
        (c2, Some e) \<Rightarrow> (c2, Inl e)
      | (c2, None) \<Rightarrow>
     (case all_terms ev df of
        Inl e \<Rightarrow> (c2, Inl e)
      | Inr terms \<Rightarrow>
     (case update_terms (count_terms terms []) c2 of
        (c3, Some e) \<Rightarrow> (c3, Inl e)
      | (c3, None) \<Rightarrow>
     (case user_metrics_frame df of
        Inl e \<Rightarrow> (c3, Inl e)
      | Inr user_metrics \<Rightarrow>
     (case to_sql ''user_metrics'' user_metrics c3 of
        (c4, Some e) \<Rightarrow> (c4, Inl e)
      | (c4, None) \<Rightarrow> (commit c4, Inr (nrows df)))))))))))"

text \<open>\<^verbatim>\<open>except Exception: return 0\<close>. The result is the connection afterwards and the count.\<close>

definition import_processed_data :: "env \<Rightarrow> conn \<Rightarrow> exn + frame \<Rightarrow> conn \<times> nat" where
  "import_processed_data ev c csv =
     (case import_body ev c csv of
        (c', Inl e) \<Rightarrow> (c', 0)
      | (c', Inr n) \<Rightarrow> (c', n))"

subsection \<open>Reading the store\<close>

text \<open>The persisted \<^verbatim>\<open>occurrence_count\<close> of a term: 0 when the term has no row.\<close>

definition term_count :: "db \<Rightarrow> string \<Rightarrow> int" where
  "term_count d term =
     (case tbl_mental_health_terms d of
        None \<Rightarrow> 0
      | Some rows \<Rightarrow> (case map_of rows term of None \<Rightarrow> 0 | Some r \<Rightarrow> snd r))"

text \<open>
  A database whose posts table has the columns of the posts frame and \<^verbatim>\<open>tweet_id\<close> as its
  key, and whose term table exists: the schema of \<^verbatim>\<open>create_database\<close> for these two
  tables, but with the posts column named \<^verbatim>\<open>text\<close> as the import writes it.
\<close>

definition keyed_conn :: conn where
  "keyed_conn =
     (let d = empty_db\<lparr>tbl_tweets := Some (new_table
                 [''tweet_id'', ''text'', ''cleaned_text'', ''created_at'',
                  ''collected_at'', ''search_keyword'', ''username'', ''retweet_count'',
                  ''favorite_count''] ''tweet_id''),
               tbl_mental_health_terms := Some []\<rparr>
      in \<lparr>committed = d, working = d\<rparr>)"

subsection \<open>Concrete inputs for import\_processed\_data\<close>

text \<open>
  Stand-ins for \<^verbatim>\<open>eval\<close> and \<^verbatim>\<open>json.loads\<close>, for the concrete frames below only.
  \<^verbatim>\<open>eval_list_literal\<close> evaluates a list display of plain quoted strings, such as
  \<^verbatim>\<open>['anxiety', 'stress']\<close> or \<^verbatim>\<open>[]\<close> (the form in which \<^verbatim>\<open>to_csv\<close> writes a list), to that
  list, and raises SyntaxError on every other text. \<^verbatim>\<open>loads_plain\<close> decodes \<^verbatim>\<open>[]\<close>, \<^verbatim>\<open>{}\<close> and
  \<^verbatim>\<open>null\<close> and raises JSONDecodeError on every other text. Python accepts more texts than
  these two do; the general theorems hold for every \<^verbatim>\<open>env\<close>.
\<close>

fun split_on :: "char \<Rightarrow> string \<Rightarrow> string list" where
  "split_on c [] = [[]]"
| "split_on c (x # xs) =
     (if x = c then [] # split_on c xs
      else (case split_on c xs of w # ws \<Rightarrow> (x # w) # ws | [] \<Rightarrow> [[x]]))"

definition trim :: "string \<Rightarrow> string" where
  "trim s = rev (dropWhile (\<lambda>c. c = CHR '' '') (rev (dropWhile (\<lambda>c. c = CHR '' '') s)))"

definition unquote :: "string \<Rightarrow> string option" where
  "unquote s =
     (let t = trim s
      in if 2 \<le> length t \<and> hd t = last t \<and> (hd t = CHR 0x27 \<or> hd t = CHR 0x22)
            \<and> list_all (\<lambda>c. is_word c \<or> c = CHR '' '') (butlast (tl t))
         then Some (butlast (tl t)) else None)"

fun all_some :: "'a option list \<Rightarrow> 'a list option" where
  "all_some [] = Some []"
| "all_some (None # xs) = None"
| "all_some (Some x # xs) = (case all_some xs of None \<Rightarrow> None | Some ys \<Rightarrow> Some (x # ys))"

definition eval_list_literal :: "string \<Rightarrow> exn + cell" where
  "eval_list_literal s =
     (if 2 \<le> length s \<and> hd s = CHR ''['' \<and> last s = CHR '']'' then
        (if trim (butlast (tl s)) = [] then Inr (Lst [])
         else (case all_some (map unquote (split_on CHR '','' (butlast (tl s)))) of
                 Some l \<Rightarrow> Inr (Lst l)
               | None \<Rightarrow> Inl SyntaxError))
      else Inl SyntaxError)"

definition loads_plain :: "string \<Rightarrow> exn + cell" where
  "loads_plain s =
     (if s = ''[]'' then Inr (Lst [])
      else if s = ''{}'' then Inr (Dict [])
      else if s = ''null'' then Inr NaN
      else Inl JSONDecodeError)"

definition demo_env :: env where
  "demo_env = \<lparr>clock = (\<lambda>col. ''2024-05-01T12:00:00''),
               py_eval = eval_list_literal, json_loads = loads_plain\<rparr>"

text \<open>A database in which only the term table has been created.\<close>

definition terms_only_conn :: conn where
  "terms_only_conn =
     \<lparr>committed = empty_db\<lparr>tbl_mental_health_terms := Some []\<rparr>,
      working = empty_db\<lparr>tbl_mental_health_terms := Some []\<rparr>\<rparr>"

text \<open>Two records, the second without identifier; no term is tagged.\<close>

definition batch_missing_id :: frame where
  "batch_missing_id =
     \<lparr>nrows = 2,
      cols = [(''tweet_id'', [Str ''t1'', NaN]),
              (''text'', [Str ''a good day'', Str ''rain again'']),
              (''mental_health_terms'', [Str ''[]'', Str ''[]'']),
              (''username'', [Str ''alice'', Str ''bob'']),
              (''retweet_count'', [Num 1, Num 3]),
              (''favorite_count'', [Num 2, Num 0])]\<rparr>"

text \<open>
  Two records of a file that names the identifier column \<^verbatim>\<open>id\<close>; the second record has
  no identifier.
\<close>

definition batch_id_alias :: frame where
  "batch_id_alias =
     \<lparr>nrows = 2,
      cols = [(''id'', [Num 101, NaN]),
              (''text'', [Str ''a good day'', Str ''rain again'']),
              (''mental_health_terms'', [Str ''[]'', Str ''[]'']),
              (''username'', [Str ''alice'', Str ''bob'']),
              (''retweet_count'', [Num 1, Num 3]),
              (''favorite_count'', [Num 2, Num 0])]\<rparr>"

text \<open>Two records of one author, tagged with terms.\<close>

definition batch_terms :: frame where
  "batch_terms =
     \<lparr>nrows = 2,
      cols = [(''tweet_id'', [Str ''t1'', Str ''t2'']),
              (''text'', [Str ''anxiety and stress'', Str ''more anxiety'']),
              (''mental_health_terms'', [Str ''['anxiety', 'stress']'', Str ''['anxiety']'']),
              (''contains_mental_health_term'', [Bool True, Bool True]),
              (''username'', [Str ''alice'', Str ''alice'']),
              (''retweet_count'', [Num 1, Num 3]),
              (''favorite_count'', [Num 2, Num 0])]\<rparr>"

text \<open>One record whose term list is cut off.\<close>

definition batch_bad_terms :: frame where
  "batch_bad_terms =
     \<lparr>nrows = 1,
      cols = [(''tweet_id'', [Str ''t1'']),
              (''text'', [Str ''anxiety'']),
              (''mental_health_terms'', [Str ''[anxiety'']),
              (''username'', [Str ''alice'']),
              (''retweet_count'', [Num 1]),
              (''favorite_count'', [Num 2])]\<rparr>"

text \<open>
  Two records with a \<^verbatim>\<open>user\<close> column as \<^verbatim>\<open>to_csv\<close> writes a dict (single quotes, so not
  JSON), and no \<^verbatim>\<open>username\<close> column.
\<close>

definition batch_user :: frame where
  "batch_user =
     \<lparr>nrows = 2,
      cols = [(''tweet_id'', [Str ''t1'', Str ''t2'']),
              (''text'', [Str ''a good day'', Str ''anxiety'']),
              (''mental_health_terms'', [Str ''[]'', Str ''['anxiety']'']),
              (''user'', [Str ''{'username': 'alice'}'', Str ''{'username': 'bob'}'']),
              (''retweet_count'', [Num 1, Num 3]),
              (''favorite_count'', [Num 2, Num 0])]\<rparr>"

text \<open>Two well-formed records without any user information.\<close>

definition batch_no_user :: frame where
  "batch_no_user =
     \<lparr>nrows = 2,
      cols = [(''tweet_id'', [Str ''t1'', Str ''t2'']),
              (''text'', [Str ''a good day'', Str ''rain again'']),
              (''mental_health_terms'', [Str ''[]'', Str ''[]'']),
              (''retweet_count'', [Num 1, Num 3]),
              (''favorite_count'', [Num 2, Num 0])]\<rparr>"

section \<open>Auxiliary notions for the proofs\<close>

text \<open>
  A string is tight when \<^verbatim>\<open>' '\<close> is its only whitespace character and no two whitespace
  characters are adjacent.
\<close>

fun tight :: "string \<Rightarrow> bool" where
  "tight [] = True"
| "tight (x # xs) =
     ((is_space x \<longrightarrow> x = CHR '' '' \<and> (case xs of [] \<Rightarrow> True | y # _ \<Rightarrow> \<not> is_space y))
      \<and> tight xs)"

section \<open>Properties of the text functions\<close>

lemma is_space_blank: "is_space CHR '' ''"
  by (simp add: is_space_def)

lemma word_not_space: "is_word c \<Longrightarrow> \<not> is_space c"
  by (auto simp: is_word_def is_space_def Let_def)

lemma re_sub_length: "length repl \<le> 1 \<Longrightarrow> length (re_sub m repl s) \<le> length s"
proof (induction m repl s rule: re_sub.induct)
  case (1 m repl) show ?case by simp
next
  case (2 m repl c cs)
  show ?case
  proof (cases "m (c # cs)")
    case None with 2 show ?thesis by simp
  next
    case (Some n)
    show ?thesis
    proof (cases "n = 0")
      case True with Some 2 show ?thesis by simp
    next
      case False
      then have "length (re_sub m repl (drop n (c # cs))) \<le> length (drop n (c # cs))"
        using 2 Some by simp
      moreover have "length (drop n (c # cs)) \<le> length cs" using False by simp
      ultimately show ?thesis using Some False "2.prems" by simp
    qed
  qed
qed

lemma re_sub_same_length:
  "length (re_sub m [] s) = length s \<Longrightarrow> re_sub m [] s = s"
proof (induction m "[] :: string" s rule: re_sub.induct)
  case (1 m) show ?case by simp
next
  case (2 m c cs)
  show ?case
  proof (cases "m (c # cs)")
    case None with 2 show ?thesis by simp
  next
    case (Some n)
    show ?thesis
    proof (cases "n = 0")
      case True with Some 2 show ?thesis by simp
    next
      case False
      have "length (re_sub m [] (drop n (c # cs))) \<le> length (drop n (c # cs))"
        by (rule re_sub_length) simp
      moreover have "length (drop n (c # cs)) \<le> length cs" using False by simp
      ultimately have "length (re_sub m [] (c # cs)) \<le> length cs" using Some False by simp
      with "2.prems" show ?thesis by simp
    qed
  qed
qed

lemma re_sub_class: "re_sub (class_pat P) [] s = filter (\<lambda>c. \<not> P c) s"
  by (induction s) (auto simp: class_pat_def)

lemma re_sub_mention_id: "CHR ''@'' \<notin> set s \<Longrightarrow> re_sub mention_pat repl s = s"
  by (induction s) (auto simp: mention_pat_def)

lemma spaces_pat_drop:
  "spaces_pat s = Some n \<Longrightarrow> n = length (takeWhile is_space s) \<and> n > 0 \<and> drop n s = dropWhile is_space s"
  by (auto simp: spaces_pat_def dropWhile_eq_drop split: list.splits)

lemma spaces_pat_None: "spaces_pat (c # cs) = None \<longleftrightarrow> \<not> is_space c"
  by (auto simp: spaces_pat_def split: list.splits)

lemma spaces_pat_NoneI: "\<not> is_space c \<Longrightarrow> spaces_pat (c # cs) = None"
  by (simp add: spaces_pat_None)

lemma re_sub_spaces_hd:
  "s \<noteq> [] \<Longrightarrow> \<not> is_space (hd s) \<Longrightarrow> re_sub spaces_pat '' '' s \<noteq> [] \<and> hd (re_sub spaces_pat '' '' s) = hd s"
  by (cases s) (auto simp: spaces_pat_NoneI)

lemma re_sub_spaces_match:
  "spaces_pat (c # cs) = Some n \<Longrightarrow>
     re_sub spaces_pat '' '' (c # cs) = CHR '' '' # re_sub spaces_pat '' '' (drop n (c # cs))"
proof -
  assume a: "spaces_pat (c # cs) = Some n"
  then have "n \<noteq> 0" using spaces_pat_drop[of "c # cs" n] by blast
  then show ?thesis by (simp add: a del: drop_Suc_Cons)
qed

lemma tight_re_sub_spaces: "tight (re_sub spaces_pat '' '' s)"
proof (induction spaces_pat "'' ''" s rule: re_sub.induct)
  case 1 show ?case by simp
next
  case (2 c cs)
  show ?case
  proof (cases "spaces_pat (c # cs)")
    case None
    then have "\<not> is_space c" by (simp add: spaces_pat_None)
    with None 2 show ?thesis by simp
  next
    case (Some n)
    have n: "n \<noteq> 0" and d: "drop n (c # cs) = dropWhile is_space (c # cs)"
      using spaces_pat_drop[OF Some] by blast+
    define r where "r = drop n (c # cs)"
    have t: "tight (re_sub spaces_pat '' '' r)" unfolding r_def using 2(3)[OF Some n] .
    have h: "case re_sub spaces_pat '' '' r of [] \<Rightarrow> True | y # _ \<Rightarrow> \<not> is_space y"
    proof (cases "r = []")
      case True then show ?thesis by simp
    next
      case False
      then have "\<not> is_space (hd r)" unfolding r_def d by (rule hd_dropWhile)
      from re_sub_spaces_hd[OF False this] this show ?thesis
        by (auto split: list.splits)
    qed
    have "re_sub spaces_pat '' '' (c # cs) = CHR '' '' # re_sub spaces_pat '' '' r"
      unfolding r_def using Some by (rule re_sub_spaces_match)
    then show ?thesis using t h is_space_blank by (simp del: re_sub.simps)
  qed
qed

lemma re_sub_spaces_tight: "tight s \<Longrightarrow> re_sub spaces_pat '' '' s = s"
proof (induction s)
  case Nil show ?case by simp
next
  case (Cons x xs)
  show ?case
  proof (cases "is_space x")
    case False
    then have "spaces_pat (x # xs) = None" by (simp add: spaces_pat_None)
    with Cons show ?thesis by simp
  next
    case True
    with Cons.prems have x: "x = CHR '' ''" and nx: "case xs of [] \<Rightarrow> True | y # _ \<Rightarrow> \<not> is_space y"
      by auto
    from True nx have "takeWhile is_space (x # xs) = [x]" by (cases xs) auto
    then have "spaces_pat (x # xs) = Some 1" by (simp add: spaces_pat_def)
    with Cons x show ?thesis by simp
  qed
qed

lemma tight_append_left: "tight (a @ b) \<Longrightarrow> tight a"
proof (induction a)
  case Nil show ?case by simp
next
  case (Cons x xs)
  then show ?case by (cases xs) auto
qed

lemma tight_dropWhile: "tight s \<Longrightarrow> tight (dropWhile P s)"
  by (induction s) auto

lemma rstrip_prefix: "s = rev (dropWhile P (rev s)) @ rev (takeWhile P (rev s))"
  by (metis rev_append rev_rev_ident takeWhile_dropWhile_id)

lemma tight_strip: "tight s \<Longrightarrow> tight (strip s)"
proof -
  assume "tight s"
  then have t: "tight (dropWhile is_space s)" by (rule tight_dropWhile)
  have "dropWhile is_space s = strip s @ rev (takeWhile is_space (rev (dropWhile is_space s)))"
    unfolding strip_def by (rule rstrip_prefix)
  with t show ?thesis by (metis tight_append_left)
qed

lemma strip_length: "length (strip s) \<le> length s"
proof -
  have "length (strip s) \<le> length (dropWhile is_space s)"
    unfolding strip_def by (metis length_dropWhile_le length_rev)
  also have "\<dots> \<le> length s" by (rule length_dropWhile_le)
  finally show ?thesis .
qed

lemma strip_ends:
  "strip s \<noteq> [] \<Longrightarrow> \<not> is_space (hd (strip s)) \<and> \<not> is_space (last (strip s))"
proof -
  assume ne: "strip s \<noteq> []"
  let ?u = "dropWhile is_space s"
  have une: "?u \<noteq> []" using ne by (metis dropWhile.simps(1) rev.simps(1) strip_def)
  have dne: "dropWhile is_space (rev ?u) \<noteq> []" using ne by (simp add: strip_def)
  have "last (strip s) = hd (dropWhile is_space (rev ?u))"
    unfolding strip_def using dne by (simp add: last_rev)
  then have l: "\<not> is_space (last (strip s))" using hd_dropWhile[OF dne] by simp
  have "?u = strip s @ rev (takeWhile is_space (rev ?u))"
    unfolding strip_def by (rule rstrip_prefix)
  then have "hd ?u = hd (strip s)" using ne by (metis hd_append2)
  then have "\<not> is_space (hd (strip s))" using hd_dropWhile[OF une] by simp
  with l show ?thesis by simp
qed

lemma strip_id:
  "s = [] \<or> (\<not> is_space (hd s) \<and> \<not> is_space (last s)) \<Longrightarrow> strip s = s"
proof (cases "s = []")
  case True then show ?thesis by (simp add: strip_def)
next
  case False
  assume "s = [] \<or> (\<not> is_space (hd s) \<and> \<not> is_space (last s))"
  with False have h: "\<not> is_space (hd s)" and l: "\<not> is_space (last s)" by auto
  from h False have 1: "dropWhile is_space s = s" by (cases s) auto
  from l False have "\<not> is_space (hd (rev s))" by (simp add: hd_rev)
  with False have 2: "dropWhile is_space (rev s) = rev s" by (cases "rev s") auto
  show ?thesis by (simp add: strip_def 1 2)
qed

lemma strip_strip: "strip (strip s) = strip s"
  by (rule strip_id) (use strip_ends in blast)

lemma set_strip: "set (strip s) \<subseteq> set s"
proof -
  have "set (strip s) \<subseteq> set (dropWhile is_space s)"
    unfolding strip_def by (metis set_dropWhileD set_rev subsetI)
  then show ?thesis by (metis set_dropWhileD subsetD subsetI)
qed

lemma set_re_sub_spaces:
  "set (re_sub spaces_pat '' '' s) \<subseteq> {c \<in> set s. \<not> is_space c} \<union> {CHR '' ''}"
proof (induction spaces_pat "'' ''" s rule: re_sub.induct)
  case 1 show ?case by simp
next
  case (2 c cs)
  show ?case
  proof (cases "spaces_pat (c # cs)")
    case None
    then have "\<not> is_space c" by (simp add: spaces_pat_None)
    with None 2 show ?thesis by auto
  next
    case (Some n)
    have n: "n \<noteq> 0" using spaces_pat_drop[OF Some] by blast
    define r where "r = drop n (c # cs)"
    have "set (re_sub spaces_pat '' '' r) \<subseteq> {x \<in> set r. \<not> is_space x} \<union> {CHR '' ''}"
      unfolding r_def using 2(3)[OF Some n] .
    moreover have "set r \<subseteq> set (c # cs)" unfolding r_def by (rule set_drop_subset)
    ultimately have "set (re_sub spaces_pat '' '' r)
            \<subseteq> {x \<in> set (c # cs). \<not> is_space x} \<union> {CHR '' ''}" by blast
    moreover have "re_sub spaces_pat '' '' (c # cs) = CHR '' '' # re_sub spaces_pat '' '' r"
      unfolding r_def using Some by (rule re_sub_spaces_match)
    ultimately show ?thesis by (simp del: re_sub.simps)
  qed
qed

lemma clean_str_chars: "c \<in> set (clean_str t) \<Longrightarrow> is_word c \<or> c = CHR '' ''"
proof -
  assume c: "c \<in> set (clean_str t)"
  define t4 where "t4 = re_sub (class_pat (\<lambda>c. \<not> is_word c \<and> \<not> is_space c)) []
     (re_sub (class_pat (\<lambda>c. c = CHR ''#'')) [] (re_sub mention_pat [] (re_sub url_pat [] t)))"
  have cs: "clean_str t = strip (re_sub spaces_pat '' '' t4)"
    by (simp add: clean_str_def t4_def Let_def)
  have "c \<in> set (re_sub spaces_pat '' '' t4)" using c set_strip unfolding cs by blast
  then have "(c \<in> set t4 \<and> \<not> is_space c) \<or> c = CHR '' ''" using set_re_sub_spaces by blast
  moreover have "\<forall>x \<in> set t4. is_word x \<or> is_space x" by (auto simp: t4_def re_sub_class)
  ultimately show ?thesis by blast
qed

lemma clean_str_tight: "tight (clean_str t)"
  by (simp add: clean_str_def Let_def tight_strip tight_re_sub_spaces)

lemma clean_str_strip: "strip (clean_str t) = clean_str t"
  by (simp add: clean_str_def Let_def strip_strip)

lemma clean_str_fix:
  assumes "re_sub url_pat [] (clean_str t) = clean_str t"
  shows "clean_str (clean_str t) = clean_str t"
proof -
  let ?c = "clean_str t"
  have ch: "\<forall>x \<in> set ?c. is_word x \<or> x = CHR '' ''" using clean_str_chars by blast
  have at: "CHR ''@'' \<notin> set ?c" using ch by (auto simp: is_word_def)
  have 2: "re_sub mention_pat [] ?c = ?c" using at by (rule re_sub_mention_id)
  have 3: "re_sub (class_pat (\<lambda>c. c = CHR ''#'')) [] ?c = ?c"
    unfolding re_sub_class using ch by (auto simp: is_word_def intro!: filter_True)
  have 4: "re_sub (class_pat (\<lambda>c. \<not> is_word c \<and> \<not> is_space c)) [] ?c = ?c"
    unfolding re_sub_class using ch is_space_blank by (auto intro!: filter_True)
  have 5: "re_sub spaces_pat '' '' ?c = ?c" by (rule re_sub_spaces_tight) (rule clean_str_tight)
  have "clean_str ?c = strip ?c"
    unfolding clean_str_def[of ?c] Let_def assms 2 3 4 5 ..
  then show ?thesis by (simp add: clean_str_strip)
qed

lemma clean_str_length: "length (clean_str t) \<le> length (re_sub url_pat [] t)"
proof -
  let ?t1 = "re_sub url_pat [] t"
  let ?t2 = "re_sub mention_pat [] ?t1"
  let ?t3 = "re_sub (class_pat (\<lambda>c. c = CHR ''#'')) [] ?t2"
  let ?t4 = "re_sub (class_pat (\<lambda>c. \<not> is_word c \<and> \<not> is_space c)) [] ?t3"
  have "length (clean_str t) \<le> length (re_sub spaces_pat '' '' ?t4)"
    by (simp add: clean_str_def Let_def strip_length)
  also have "\<dots> \<le> length ?t4" by (rule re_sub_length) simp
  also have "\<dots> \<le> length ?t3" by (rule re_sub_length) simp
  also have "\<dots> \<le> length ?t2" by (rule re_sub_length) simp
  also have "\<dots> \<le> length ?t1" by (rule re_sub_length) simp
  finally show ?thesis .
qed

lemma clean_str_fix_iff:
  "clean_str (clean_str t) = clean_str t \<longleftrightarrow> re_sub url_pat [] (clean_str t) = clean_str t"
proof
  assume "re_sub url_pat [] (clean_str t) = clean_str t"
  then show "clean_str (clean_str t) = clean_str t" by (rule clean_str_fix)
next
  assume a: "clean_str (clean_str t) = clean_str t"
  have "length (clean_str t) \<le> length (re_sub url_pat [] (clean_str t))"
    using clean_str_length[of "clean_str t"] a by simp
  moreover have "length (re_sub url_pat [] (clean_str t)) \<le> length (clean_str t)"
    by (rule re_sub_length) simp
  ultimately show "re_sub url_pat [] (clean_str t) = clean_str t"
    by (intro re_sub_same_length) simp
qed

subsection \<open>The normalizer is not idempotent on every input\<close>

text \<open>
  C8, as stated, fails: \<^verbatim>\<open>clean_tweet('ht.tpx')\<close> is \<^verbatim>\<open>'httpx'\<close> (only the dot is
  removed, after the URL pattern has been tried), and cleaning \<^verbatim>\<open>'httpx'\<close> removes it as a
  URL.
\<close>

theorem clean_tweet_not_idempotent:
  "clean_tweet (Some (clean_tweet (Some ''ht.tpx''))) \<noteq> clean_tweet (Some ''ht.tpx'')"
  by code_simp

text \<open>
  C8, amended: cleaning a cleaned text changes nothing exactly when the cleaned text holds
  no URL-like token, that is, when the URL substitution \<^verbatim>\<open>http\S+|www\S+|https\S+\<close> leaves
  it as it is. The other four steps never change a cleaned text.
\<close>

theorem clean_tweet_idempotent_iff:
  "clean_tweet (Some (clean_tweet x)) = clean_tweet x
     \<longleftrightarrow> re_sub url_pat [] (clean_tweet x) = clean_tweet x"
proof (cases x)
  case None
  then show ?thesis by (simp add: clean_str_def strip_def)
next
  case (Some t)
  then show ?thesis by (simp add: clean_str_fix_iff)
qed

theorem clean_tweet_idempotent_iff_witness:
  "clean_tweet (Some ''check this http://x.co @bob #sad!!'') = ''check this sad''
   \<and> clean_tweet (Some (clean_tweet (Some ''check this http://x.co @bob #sad!!'')))
       = clean_tweet (Some ''check this http://x.co @bob #sad!!'')"
proof -
  have c: "clean_tweet (Some ''check this http://x.co @bob #sad!!'') = ''check this sad''"
    by code_simp
  have u: "re_sub url_pat [] ''check this sad'' = ''check this sad''"
    by code_simp
  show ?thesis
    using clean_tweet_idempotent_iff [of "Some ''check this http://x.co @bob #sad!!''"] c u
    by simp
qed

section \<open>Properties of the sentiment categories and of the tagger\<close>

text \<open>
  C5: the category is the step function of the score. Model A (TextBlob): positive above 0,
  negative below 0, neutral at 0. Model B (VADER): positive from 0.05 on, negative up to
  -0.05, neutral strictly between, for instance at 0.04.
\<close>

theorem sentiment_category_thresholds:
  "(p > 0 \<longrightarrow> textblob_category p = positive)
   \<and> (p < 0 \<longrightarrow> textblob_category p = negative)
   \<and> (p = 0 \<longrightarrow> textblob_category p = neutral)
   \<and> (c \<ge> 0.05 \<longrightarrow> vader_category c = positive)
   \<and> (c \<le> - 0.05 \<longrightarrow> vader_category c = negative)
   \<and> (- 0.05 < c \<and> c < 0.05 \<longrightarrow> vader_category c = neutral)
   \<and> vader_category 0.04 = neutral"
  by (auto simp: textblob_category_def vader_category_def)

theorem sentiment_category_thresholds_witness:
  "(0 :: real) < 1 / 4 \<and> textblob_category (1 / 4) = positive
   \<and> (- 1 / 4 :: real) < 0 \<and> textblob_category (- 1 / 4) = negative
   \<and> textblob_category 0 = neutral
   \<and> (0.05 :: real) \<ge> 0.05 \<and> vader_category 0.05 = positive
   \<and> (- 0.05 :: real) \<le> - 0.05 \<and> vader_category (- 0.05) = negative
   \<and> (- 0.05 :: real) < 0.04 \<and> (0.04 :: real) < 0.05 \<and> vader_category 0.04 = neutral"
  using sentiment_category_thresholds [of "1 / 4" "0.05"]
    sentiment_category_thresholds [of "- 1 / 4" "- 0.05"]
    sentiment_category_thresholds [of 0 "0.04"]
  by simp

lemma str_in_sublist: "str_in a b = sublist a b"
proof (induction b)
  case Nil show ?case by simp
next
  case (Cons c cs)
  have "take (length a) (c # cs) = a \<longleftrightarrow> prefix a (c # cs)"
    by (metis append_eq_conv_conj prefix_def)
  then show ?case using Cons by (simp add: sublist_Cons_right del: take_Suc_Cons)
qed

lemma extract_loop_filter:
  "extract_loop txt vocab acc = acc @ filter (\<lambda>t. str_in (lower t) txt) vocab"
  by (induction vocab arbitrary: acc) auto

section \<open>Properties of process\_tweet\_file\<close>

lemma apply_e_Inr:
  "apply_e f xs = Inr ys \<longleftrightarrow> list_all2 (\<lambda>x y. f x = Inr y) xs ys"
proof (induction xs arbitrary: ys)
  case Nil show ?case by auto
next
  case (Cons x xs)
  show ?case
    by (cases "f x"; cases "apply_e f xs")
       (auto simp: ebind_def list_all2_Cons1 Cons.IH[symmetric])
qed

lemma apply_e_raises:
  "x \<in> set xs \<Longrightarrow> f x = Inl e \<Longrightarrow> \<exists>e'. apply_e f xs = Inl e'"
proof (induction xs)
  case Nil then show ?case by simp
next
  case (Cons y ys)
  then show ?case
    by (cases "f y"; cases "apply_e f ys") (auto simp: ebind_def)
qed

lemma apply_e_length: "apply_e f xs = Inr ys \<Longrightarrow> length ys = length xs"
  by (simp add: apply_e_Inr list_all2_lengthD)

lemma zip_rows_source:
  "length cs = length ts \<Longrightarrow> length bs = length ts \<Longrightarrow> length vs = length ts \<Longrightarrow>
     map source (zip_rows ts cs bs vs) = ts
     \<and> map cleaned_text (zip_rows ts cs bs vs) = cs
     \<and> map textblob (zip_rows ts cs bs vs) = bs
     \<and> map vader (zip_rows ts cs bs vs) = vs"
proof (induction ts cs bs vs rule: zip_rows.induct)
  case (1 t ts c cs b bs v vs)
  then show ?case by simp
qed auto

lemma textblob_scores:
  "analyze_sentiment_textblob sc c = Inr b \<Longrightarrow>
     tb sc c = Inr (polarity b, subjectivity b) \<and> tb_sentiment_category b = textblob_category (polarity b)"
  by (cases "tb sc c") (auto simp: analyze_sentiment_textblob_def ebind_def)

lemma vader_scores:
  "analyze_sentiment_vader sc c = Inr v \<Longrightarrow>
     vd sc c = Inr (compound v, vd_positive v, vd_negative v, vd_neutral v)
     \<and> vd_sentiment_category v = vader_category (compound v)"
  by (cases "vd sc c") (auto simp: analyze_sentiment_vader_def ebind_def)

lemma process_rows_raises:
  assumes "t \<in> set tweets"
    and "tb sc (clean_tweet (text_cell t)) = Inl e \<or> vd sc (clean_tweet (text_cell t)) = Inl e"
  shows "\<exists>e'. process_rows sc tweets = Inl e'"
proof (cases "text_column tweets")
  case (Inl a) then show ?thesis by (simp add: process_rows_def ebind_def)
next
  case (Inr texts)
  then have texts: "texts = map text_cell tweets" by (auto simp: text_column_def split: if_splits)
  let ?cl = "map clean_tweet texts"
  have mem: "clean_tweet (text_cell t) \<in> set ?cl" using assms(1) texts by auto
  show ?thesis
  proof (cases "apply_e (analyze_sentiment_textblob sc) ?cl")
    case (Inl a) with Inr show ?thesis by (simp add: process_rows_def ebind_def Let_def)
  next
    case tbok: (Inr bs)
    have "\<not> (\<exists>e. tb sc (clean_tweet (text_cell t)) = Inl e)"
    proof
      assume "\<exists>e. tb sc (clean_tweet (text_cell t)) = Inl e"
      then obtain e0 where "analyze_sentiment_textblob sc (clean_tweet (text_cell t)) = Inl e0"
        by (auto simp: analyze_sentiment_textblob_def ebind_def)
      from apply_e_raises[of _ _ "analyze_sentiment_textblob sc", OF mem this] tbok
      show False by auto
    qed
    with assms(2) have "vd sc (clean_tweet (text_cell t)) = Inl e" by auto
    then have "analyze_sentiment_vader sc (clean_tweet (text_cell t)) = Inl e"
      by (auto simp: analyze_sentiment_vader_def ebind_def)
    from apply_e_raises[of _ _ "analyze_sentiment_vader sc", OF mem this] obtain e' where
      "apply_e (analyze_sentiment_vader sc) ?cl = Inl e'" by auto
    with Inr tbok show ?thesis by (simp add: process_rows_def ebind_def Let_def)
  qed
qed

lemma process_rows_Inr:
  assumes "process_rows sc tweets = Inr rows"
  shows "map source rows = tweets
     \<and> (\<forall>r \<in> set rows.
          cleaned_text r = clean_tweet (text_cell (source r))
          \<and> tb sc (cleaned_text r) = Inr (polarity (textblob r), subjectivity (textblob r))
          \<and> vd sc (cleaned_text r)
              = Inr (compound (vader r), vd_positive (vader r), vd_negative (vader r),
                     vd_neutral (vader r)))"
proof -
  from assms obtain texts where tc: "text_column tweets = Inr texts"
    by (cases "text_column tweets") (auto simp: process_rows_def ebind_def)
  then have texts: "texts = map text_cell tweets" by (auto simp: text_column_def split: if_splits)
  define cl where "cl = map clean_tweet texts"
  from assms tc obtain bs where bs: "apply_e (analyze_sentiment_textblob sc) cl = Inr bs"
    by (cases "apply_e (analyze_sentiment_textblob sc) cl")
       (auto simp: process_rows_def ebind_def Let_def cl_def)
  from assms tc bs obtain vs where vs: "apply_e (analyze_sentiment_vader sc) cl = Inr vs"
    by (cases "apply_e (analyze_sentiment_vader sc) cl")
       (auto simp: process_rows_def ebind_def Let_def cl_def)
  have rows: "rows = zip_rows tweets cl bs vs"
    using assms tc bs vs by (simp add: process_rows_def ebind_def Let_def cl_def)
  have len: "length cl = length tweets" "length bs = length tweets" "length vs = length tweets"
    using apply_e_length[OF bs] apply_e_length[OF vs] by (simp_all add: cl_def texts)
  note z = zip_rows_source[OF len, folded rows]
  have b2: "list_all2 (\<lambda>c b. analyze_sentiment_textblob sc c = Inr b) cl bs"
    using bs by (simp add: apply_e_Inr)
  have v2: "list_all2 (\<lambda>c v. analyze_sentiment_vader sc c = Inr v) cl vs"
    using vs by (simp add: apply_e_Inr)
  have "\<forall>r \<in> set rows.
          cleaned_text r = clean_tweet (text_cell (source r))
          \<and> tb sc (cleaned_text r) = Inr (polarity (textblob r), subjectivity (textblob r))
          \<and> vd sc (cleaned_text r)
              = Inr (compound (vader r), vd_positive (vader r), vd_negative (vader r),
                     vd_neutral (vader r))"
  proof
    fix r assume "r \<in> set rows"
    then obtain i where i: "i < length rows" and r: "r = rows ! i" by (auto simp: in_set_conv_nth)
    have lr: "length rows = length tweets" using z by (metis length_map)
    have s: "source r = tweets ! i" using z i r by (metis nth_map)
    have c: "cleaned_text r = cl ! i" using z i r by (metis nth_map)
    have b: "textblob r = bs ! i" using z i r by (metis nth_map)
    have v: "vader r = vs ! i" using z i r by (metis nth_map)
    have "cl ! i = clean_tweet (text_cell (tweets ! i))" using i lr by (simp add: cl_def texts)
    moreover have "analyze_sentiment_textblob sc (cl ! i) = Inr (bs ! i)"
      using b2 i lr len by (simp add: list_all2_conv_all_nth)
    moreover have "analyze_sentiment_vader sc (cl ! i) = Inr (vs ! i)"
      using v2 i lr len by (simp add: list_all2_conv_all_nth)
    ultimately show "cleaned_text r = clean_tweet (text_cell (source r))
          \<and> tb sc (cleaned_text r) = Inr (polarity (textblob r), subjectivity (textblob r))
          \<and> vd sc (cleaned_text r)
              = Inr (compound (vader r), vd_positive (vader r), vd_negative (vader r),
                     vd_neutral (vader r))"
      using textblob_scores vader_scores s c b v by metis
  qed
  with z show ?thesis by blast
qed

subsection \<open>The tags and the flag of a row\<close>

lemma zip_rows_tags:
  "r \<in> set (zip_rows ts cs bs vs) \<Longrightarrow>
     mental_health_terms_found r = extract_mental_health_terms (cleaned_text r) vocabulary
     \<and> contains_mental_health_term r = contains_term (mental_health_terms_found r)"
  by (induction ts cs bs vs rule: zip_rows.induct) auto

lemma process_rows_zip:
  assumes "process_rows sc tweets = Inr rows"
  shows "\<exists>cl bs vs. rows = zip_rows tweets cl bs vs"
proof -
  from assms obtain texts where tc: "text_column tweets = Inr texts"
    by (cases "text_column tweets") (auto simp: process_rows_def ebind_def)
  define cl where "cl = map clean_tweet texts"
  from assms tc obtain bs where bs: "apply_e (analyze_sentiment_textblob sc) cl = Inr bs"
    by (cases "apply_e (analyze_sentiment_textblob sc) cl")
       (auto simp: process_rows_def ebind_def Let_def cl_def)
  from assms tc bs obtain vs where vs: "apply_e (analyze_sentiment_vader sc) cl = Inr vs"
    by (cases "apply_e (analyze_sentiment_vader sc) cl")
       (auto simp: process_rows_def ebind_def Let_def cl_def)
  have "rows = zip_rows tweets cl bs vs"
    using assms tc bs vs by (simp add: process_rows_def ebind_def Let_def cl_def)
  then show ?thesis by blast
qed

lemma process_tweet_file_Some:
  "process_tweet_file sc to_csv (Inr tweets) = Some rows \<Longrightarrow> process_rows sc tweets = Inr rows"
  by (auto simp: process_tweet_file_def split: if_splits sum.splits option.splits)

text \<open>
  C7: the tagger returns the vocabulary terms whose lowercase form occurs in the lowercase
  text as a contiguous block, in vocabulary order; the empty list when none occurs. In the
  output of \<^verbatim>\<open>process_tweet_file\<close> there is one row per record, in order; the tag list of
  every row is what the tagger returns for the cleaned text of that row and the fixed
  vocabulary, and the flag of every row is true exactly when its tag list is not empty.
\<close>

theorem tagger_returns_contained_terms:
  "extract_mental_health_terms text vocab
     = filter (\<lambda>term. sublist (lower term) (lower text)) vocab
   \<and> ((\<forall>term \<in> set vocab. \<not> sublist (lower term) (lower text))
        \<longrightarrow> extract_mental_health_terms text vocab = [])
   \<and> contains_term (extract_mental_health_terms text vocab)
        = (extract_mental_health_terms text vocab \<noteq> [])
   \<and> (process_tweet_file sc to_csv (Inr tweets) = Some rows
        \<longrightarrow> map source rows = tweets
            \<and> (\<forall>r \<in> set rows.
                  cleaned_text r = clean_tweet (text_cell (source r))
                  \<and> mental_health_terms_found r
                      = extract_mental_health_terms (cleaned_text r) vocabulary
                  \<and> mental_health_terms_found r
                      = filter (\<lambda>term. sublist (lower term) (lower (cleaned_text r))) vocabulary
                  \<and> contains_mental_health_term r = (mental_health_terms_found r \<noteq> [])))"
proof -
  have t: "extract_mental_health_terms x v = filter (\<lambda>term. sublist (lower term) (lower x)) v" for x v
    by (simp add: extract_mental_health_terms_def extract_loop_filter str_in_sublist)
  have 1: "(\<forall>term \<in> set vocab. \<not> sublist (lower term) (lower text))
        \<longrightarrow> extract_mental_health_terms text vocab = []"
    by (simp add: t filter_empty_conv)
  have 2: "contains_term (extract_mental_health_terms text vocab)
        = (extract_mental_health_terms text vocab \<noteq> [])"
    by (simp add: contains_term_def)
  have 3: "process_tweet_file sc to_csv (Inr tweets) = Some rows
        \<longrightarrow> map source rows = tweets
            \<and> (\<forall>r \<in> set rows.
                  cleaned_text r = clean_tweet (text_cell (source r))
                  \<and> mental_health_terms_found r
                      = extract_mental_health_terms (cleaned_text r) vocabulary
                  \<and> mental_health_terms_found r
                      = filter (\<lambda>term. sublist (lower term) (lower (cleaned_text r))) vocabulary
                  \<and> contains_mental_health_term r = (mental_health_terms_found r \<noteq> []))"
  proof
    assume "process_tweet_file sc to_csv (Inr tweets) = Some rows"
    then have p: "process_rows sc tweets = Inr rows" by (rule process_tweet_file_Some)
    from process_rows_zip[OF p] obtain cl bs vs where z: "rows = zip_rows tweets cl bs vs"
      by blast
    have s: "map source rows = tweets"
      and c: "\<forall>r \<in> set rows. cleaned_text r = clean_tweet (text_cell (source r))"
      using process_rows_Inr[OF p] by blast+
    have "\<forall>r \<in> set rows.
                  cleaned_text r = clean_tweet (text_cell (source r))
                  \<and> mental_health_terms_found r
                      = extract_mental_health_terms (cleaned_text r) vocabulary
                  \<and> mental_health_terms_found r
                      = filter (\<lambda>term. sublist (lower term) (lower (cleaned_text r))) vocabulary
                  \<and> contains_mental_health_term r = (mental_health_terms_found r \<noteq> [])"
    proof
      fix r assume r: "r \<in> set rows"
      from zip_rows_tags[OF r[unfolded z]] c r
      show "cleaned_text r = clean_tweet (text_cell (source r))
                  \<and> mental_health_terms_found r
                      = extract_mental_health_terms (cleaned_text r) vocabulary
                  \<and> mental_health_terms_found r
                      = filter (\<lambda>term. sublist (lower term) (lower (cleaned_text r))) vocabulary
                  \<and> contains_mental_health_term r = (mental_health_terms_found r \<noteq> [])"
        by (simp add: t[symmetric] contains_term_def)
    qed
    with s show "map source rows = tweets
            \<and> (\<forall>r \<in> set rows.
                  cleaned_text r = clean_tweet (text_cell (source r))
                  \<and> mental_health_terms_found r
                      = extract_mental_health_terms (cleaned_text r) vocabulary
                  \<and> mental_health_terms_found r
                      = filter (\<lambda>term. sublist (lower term) (lower (cleaned_text r))) vocabulary
                  \<and> contains_mental_health_term r = (mental_health_terms_found r \<noteq> []))"
      by blast
  qed
  from t[of "text" vocab] 1 2 3 show ?thesis by (intro conjI)
qed

theorem tagger_returns_contained_terms_witness:
  "\<not> sublist (lower ''anxiety'') (lower ''A sunny day'')
   \<and> \<not> sublist (lower ''stress'') (lower ''A sunny day'')
   \<and> extract_mental_health_terms ''A sunny day'' [''anxiety'', ''stress''] = []
   \<and> \<not> contains_term (extract_mental_health_terms ''A sunny day'' [''anxiety'', ''stress''])
   \<and> extract_mental_health_terms ''Feeling ANXIETY, stress'' [''anxiety'', ''therapy'', ''Stress'']
       = [''anxiety'', ''Stress'']
   \<and> (\<exists>r1 r2. process_tweet_file demo_scorers None (Inr [tagged_tweet, good_tweet]) = Some [r1, r2]
         \<and> source r1 = tagged_tweet
         \<and> cleaned_text r1 = ''Such ANXIETY so much stress''
         \<and> mental_health_terms_found r1 = [''anxiety'', ''stress'']
         \<and> contains_mental_health_term r1
         \<and> source r2 = good_tweet
         \<and> mental_health_terms_found r2 = []
         \<and> \<not> contains_mental_health_term r2)"
proof -
  have h: "\<forall>term \<in> set [''anxiety'', ''stress'']. \<not> str_in (lower term) (lower ''A sunny day'')"
    by code_simp
  then have h': "\<forall>term \<in> set [''anxiety'', ''stress'']. \<not> sublist (lower term) (lower ''A sunny day'')"
    by (simp only: str_in_sublist)
  have e: "filter (\<lambda>term. str_in (lower term) (lower ''Feeling ANXIETY, stress''))
             [''anxiety'', ''therapy'', ''Stress''] = [''anxiety'', ''Stress'']"
    by code_simp
  have a: "\<not> sublist (lower ''anxiety'') (lower ''A sunny day'')
   \<and> \<not> sublist (lower ''stress'') (lower ''A sunny day'')
   \<and> extract_mental_health_terms ''A sunny day'' [''anxiety'', ''stress''] = []
   \<and> \<not> contains_term (extract_mental_health_terms ''A sunny day'' [''anxiety'', ''stress''])
   \<and> extract_mental_health_terms ''Feeling ANXIETY, stress'' [''anxiety'', ''therapy'', ''Stress'']
       = [''anxiety'', ''Stress'']"
    using tagger_returns_contained_terms [of "''A sunny day''" "[''anxiety'', ''stress'']"] h'
      tagger_returns_contained_terms
        [of "''Feeling ANXIETY, stress''" "[''anxiety'', ''therapy'', ''Stress'']"]
      e [unfolded str_in_sublist]
    by auto
  have "process_tweet_file demo_scorers None (Inr [tagged_tweet, good_tweet]) \<noteq> None"
    by code_simp
  then obtain rows where
    r: "process_tweet_file demo_scorers None (Inr [tagged_tweet, good_tweet]) = Some rows"
    by blast
  from tagger_returns_contained_terms
    [where sc = demo_scorers and to_csv = None and tweets = "[tagged_tweet, good_tweet]"
       and rows = rows] r
  have m: "map source rows = [tagged_tweet, good_tweet]"
    and p: "\<forall>r \<in> set rows.
              cleaned_text r = clean_tweet (text_cell (source r))
              \<and> mental_health_terms_found r
                  = extract_mental_health_terms (cleaned_text r) vocabulary
              \<and> contains_mental_health_term r = (mental_health_terms_found r \<noteq> [])"
    by blast+
  from m obtain r1 r2 where rows: "rows = [r1, r2]"
    and s1: "source r1 = tagged_tweet" and s2: "source r2 = good_tweet"
    by (cases rows; cases "tl rows") auto
  have c1: "clean_tweet (text_cell tagged_tweet) = ''Such ANXIETY so much stress''"
    by code_simp
  have t1: "extract_mental_health_terms (clean_tweet (text_cell tagged_tweet)) vocabulary
              = [''anxiety'', ''stress'']"
    by code_simp
  have t2: "extract_mental_health_terms (clean_tweet (text_cell good_tweet)) vocabulary = []"
    by code_simp
  from p rows s1 s2 c1 t1 t2 have
    "cleaned_text r1 = ''Such ANXIETY so much stress''"
    "mental_health_terms_found r1 = [''anxiety'', ''stress'']"
    "contains_mental_health_term r1"
    "mental_health_terms_found r2 = []"
    "\<not> contains_mental_health_term r2"
    by simp_all
  with a r rows s1 s2 show ?thesis by blast
qed

subsection \<open>A scoring function that raises\<close>

text \<open>
  C6, as stated, fails: when the scorer raises on the first of two records, the function
  returns \<^verbatim>\<open>None\<close>; the second record, which both scorers accept, is not output.
\<close>

theorem scoring_failure_loses_all_rows:
  "tb demo_scorers (clean_tweet (text_cell bad_tweet)) = Inl OtherError
   \<and> tb demo_scorers (clean_tweet (text_cell good_tweet)) = Inr (1 / 2, 1 / 2)
   \<and> vd demo_scorers (clean_tweet (text_cell good_tweet)) = Inr (1 / 2, 1 / 2, 0, 1 / 2)
   \<and> process_tweet_file demo_scorers None (Inr [bad_tweet, good_tweet]) = None"
  by code_simp

text \<open>
  C6, amended: if a scoring function raises on the cleaned text of any record, the whole
  file is abandoned (\<^verbatim>\<open>None\<close> is returned, no row is output). No score is fabricated:
  whenever rows are returned there is one per record, in order, and each carries exactly
  what the two scoring functions returned for its cleaned text.
\<close>

theorem scoring_failure_abandons_file:
  "((\<exists>t \<in> set tweets. \<exists>e. tb sc (clean_tweet (text_cell t)) = Inl e
                          \<or> vd sc (clean_tweet (text_cell t)) = Inl e)
      \<longrightarrow> process_tweet_file sc to_csv (Inr tweets) = None)
   \<and> (process_tweet_file sc to_csv (Inr tweets) = Some rows
      \<longrightarrow> map source rows = tweets
          \<and> (\<forall>r \<in> set rows.
                cleaned_text r = clean_tweet (text_cell (source r))
                \<and> tb sc (cleaned_text r) = Inr (polarity (textblob r), subjectivity (textblob r))
                \<and> vd sc (cleaned_text r)
                    = Inr (compound (vader r), vd_positive (vader r), vd_negative (vader r),
                           vd_neutral (vader r))))"
proof (intro conjI impI)
  assume "\<exists>t \<in> set tweets. \<exists>e. tb sc (clean_tweet (text_cell t)) = Inl e
                          \<or> vd sc (clean_tweet (text_cell t)) = Inl e"
  then obtain t e where "t \<in> set tweets"
    "tb sc (clean_tweet (text_cell t)) = Inl e \<or> vd sc (clean_tweet (text_cell t)) = Inl e"
    by blast
  from process_rows_raises[OF this] show "process_tweet_file sc to_csv (Inr tweets) = None"
    by (auto simp: process_tweet_file_def)
next
  assume a: "process_tweet_file sc to_csv (Inr tweets) = Some rows"
  then have "process_rows sc tweets = Inr rows"
    by (auto simp: process_tweet_file_def split: if_splits sum.splits option.splits)
  from process_rows_Inr[OF this]
  show "map source rows = tweets" and "\<forall>r \<in> set rows.
                cleaned_text r = clean_tweet (text_cell (source r))
                \<and> tb sc (cleaned_text r) = Inr (polarity (textblob r), subjectivity (textblob r))
                \<and> vd sc (cleaned_text r)
                    = Inr (compound (vader r), vd_positive (vader r), vd_negative (vader r),
                           vd_neutral (vader r))"
    by blast+
qed

theorem scoring_failure_abandons_file_witness:
  "bad_tweet \<in> set [good_tweet, bad_tweet]
   \<and> tb demo_scorers (clean_tweet (text_cell bad_tweet)) = Inl OtherError
   \<and> process_tweet_file demo_scorers None (Inr [good_tweet, bad_tweet]) = None
   \<and> (\<exists>row. process_tweet_file demo_scorers None (Inr [good_tweet]) = Some [row]
          \<and> source row = good_tweet
          \<and> tb demo_scorers (cleaned_text row)
              = Inr (polarity (textblob row), subjectivity (textblob row)))"
proof -
  have b: "tb demo_scorers (clean_tweet (text_cell bad_tweet)) = Inl OtherError"
    by code_simp
  have n: "process_tweet_file demo_scorers None (Inr [good_tweet, bad_tweet]) = None"
    using scoring_failure_abandons_file
      [where tweets = "[good_tweet, bad_tweet]" and sc = demo_scorers and to_csv = None] b
    by auto
  have "process_tweet_file demo_scorers None (Inr [good_tweet]) \<noteq> None"
    by code_simp
  then obtain rows where r: "process_tweet_file demo_scorers None (Inr [good_tweet]) = Some rows"
    by blast
  from scoring_failure_abandons_file [of "[good_tweet]" demo_scorers None rows] r
  have m: "map source rows = [good_tweet]"
    and s: "\<forall>r \<in> set rows. tb demo_scorers (cleaned_text r)
              = Inr (polarity (textblob r), subjectivity (textblob r))"
    by blast+
  from m obtain row where rows: "rows = [row]" and src: "source row = good_tweet"
    by (cases rows) auto
  with s r b n show ?thesis by auto
qed

section \<open>Properties of import\_processed\_data\<close>

subsection \<open>Frames\<close>

lemma has_col_map_of: "has_col a df \<longleftrightarrow> map_of (cols df) a \<noteq> None"
  by (simp add: has_col_def columns_def map_of_eq_None_iff)

lemma get_col_missing: "\<not> has_col a df \<Longrightarrow> get_col a df = Inl KeyError"
  by (simp add: has_col_map_of get_col_def)

lemma get_col_present: "has_col a df \<Longrightarrow> \<exists>v. get_col a df = Inr v"
  by (auto simp: has_col_map_of get_col_def)

lemma get_col_Inr_has: "get_col a df = Inr v \<Longrightarrow> has_col a df"
  by (auto simp: has_col_map_of get_col_def split: option.splits)

lemma has_col_set_col: "has_col a (set_col c v df) \<longleftrightarrow> a = c \<or> has_col a df"
  by (auto simp: has_col_map_of set_col_def update_conv')

lemma get_col_set_col: "get_col a (set_col c v df) = (if a = c then Inr v else get_col a df)"
  by (simp add: get_col_def set_col_def update_conv')

lemma nrows_set_col: "nrows (set_col c v df) = nrows df"
  by (simp add: set_col_def)

lemma has_col_set_scalar: "has_col a (set_scalar c x df) \<longleftrightarrow> a = c \<or> has_col a df"
  by (simp add: set_scalar_def has_col_set_col)

lemma get_col_set_scalar:
  "get_col a (set_scalar c x df) = (if a = c then Inr (replicate (nrows df) x) else get_col a df)"
  by (simp add: set_scalar_def get_col_set_col)

lemma nrows_set_scalar: "nrows (set_scalar c x df) = nrows df"
  by (simp add: set_scalar_def nrows_set_col)

lemmas frame_simps = has_col_set_col get_col_set_col nrows_set_col
  has_col_set_scalar get_col_set_scalar nrows_set_scalar

lemma default_column_shape:
  "default_column ev col df = Inr df' \<Longrightarrow> \<exists>v. df' = set_col col v df"
  unfolding default_column_def set_scalar_def ebind_def
  by (simp split: if_split_asm sum.split_asm del: list.set set_simps; blast)

lemma default_column_props:
  assumes "default_column ev col df = Inr df'"
  shows "nrows df' = nrows df"
    and "has_col a df' \<longleftrightarrow> a = col \<or> has_col a df"
    and "a \<noteq> col \<Longrightarrow> get_col a df' = get_col a df"
  using default_column_shape[OF assms] by (auto simp: frame_simps)

lemma default_tweet_id:
  "default_column ev ''tweet_id'' df
     = Inr (set_col ''tweet_id'' (map (\<lambda>i. Str (str_of_nat i)) [0..<nrows df]) df)"
  by (simp add: default_column_def)


lemma fill_missing_props:
  assumes "fill_missing ev cs df = Inr df'"
  shows "nrows df' = nrows df \<and> (has_col a df' \<longleftrightarrow> a \<in> set cs \<or> has_col a df)
         \<and> (has_col a df \<longrightarrow> get_col a df' = get_col a df)"
  using assms
proof (induction cs arbitrary: df)
  case Nil then show ?case by simp
next
  case (Cons col rest)
  show ?case
  proof (cases "has_col col df")
    case True
    with Cons.prems have "fill_missing ev rest df = Inr df'" by simp
    from Cons.IH[OF this] True show ?thesis by auto
  next
    case False
    with Cons.prems obtain d1 where d1: "default_column ev col df = Inr d1"
      and r: "fill_missing ev rest d1 = Inr df'"
      by (cases "default_column ev col df") (auto simp: ebind_def)
    note p = default_column_props[OF d1]
    from Cons.IH[OF r] have i: "nrows df' = nrows d1"
      "has_col a df' \<longleftrightarrow> a \<in> set rest \<or> has_col a d1"
      "has_col a d1 \<longrightarrow> get_col a df' = get_col a d1" by auto
    have "has_col a df \<longrightarrow> get_col a df' = get_col a df"
    proof
      assume h: "has_col a df"
      then have "a \<noteq> col" using False by auto
      then show "get_col a df' = get_col a df" using i(3) p(2)[of a] p(3)[of a] h by simp
    qed
    then show ?thesis using i p(1) p(2)[of a] by auto
  qed
qed

lemma has_col_rename:
  "a \<noteq> old \<Longrightarrow> a \<noteq> new \<Longrightarrow> has_col a (rename_col old new df) \<longleftrightarrow> has_col a df"
  by (force simp: has_col_def columns_def rename_col_def image_iff)

lemma nrows_rename: "nrows (rename_col old new df) = nrows df"
  by (simp add: rename_col_def)

lemma has_col_extract_username:
  "has_col a (extract_username ev df) \<longleftrightarrow> has_col a df \<or> (a = ''username'' \<and> has_col ''user'' df)"
  by (auto simp: extract_username_def frame_simps split: sum.splits)

lemma nrows_extract_username: "nrows (extract_username ev df) = nrows df"
  by (auto simp: extract_username_def frame_simps split: sum.splits)

lemma get_col_extract_username:
  "a \<noteq> ''username'' \<Longrightarrow> get_col a (extract_username ev df) = get_col a df"
  by (auto simp: extract_username_def frame_simps split: sum.splits)

lemma select_cols_missing:
  "a \<in> set cs \<Longrightarrow> \<not> has_col a df \<Longrightarrow> \<exists>e. select_cols cs df = Inl e"
proof (induction cs)
  case Nil then show ?case by simp
next
  case (Cons c cs)
  then show ?case
    by (cases "get_col c df"; cases "select_cols cs df")
       (auto simp: ebind_def get_col_missing)
qed

lemma select_missing: "a \<in> set cs \<Longrightarrow> \<not> has_col a df \<Longrightarrow> \<exists>e. select cs df = Inl e"
  using select_cols_missing[of a cs df] by (auto simp: select_def ebind_def)

lemma select_cols_Inr:
  "select_cols cs df = Inr r \<Longrightarrow> map fst r = cs \<and> (\<forall>a \<in> set cs. get_col a df = Inr (the (map_of r a)))"
proof (induction cs arbitrary: r)
  case Nil then show ?case by simp
next
  case (Cons c cs)
  from Cons.prems obtain v r' where v: "get_col c df = Inr v" and r': "select_cols cs df = Inr r'"
    and r: "r = (c, v) # r'"
    by (cases "get_col c df"; cases "select_cols cs df") (auto simp: ebind_def)
  from Cons.IH[OF r'] show ?case using v r by auto
qed

lemma select_Inr:
  assumes "select cs df = Inr f"
  shows "nrows f = nrows df" and "columns f = cs"
    and "a \<in> set cs \<Longrightarrow> get_col a f = get_col a df"
proof -
  from assms obtain r where r: "select_cols cs df = Inr r" and f: "f = \<lparr>nrows = nrows df, cols = r\<rparr>"
    by (cases "select_cols cs df") (auto simp: select_def ebind_def)
  note p = select_cols_Inr[OF r]
  show "nrows f = nrows df" using f by simp
  show "columns f = cs" using f p by (simp add: columns_def)
  assume a: "a \<in> set cs"
  then have "get_col a df = Inr (the (map_of r a))" using p by blast
  moreover have "map_of r a \<noteq> None" using p a by (metis map_of_eq_None_iff list.set_map)
  ultimately show "get_col a f = get_col a df" using f by (auto simp: get_col_def)
qed

lemma reconcile_no_username:
  assumes "\<not> has_col ''user'' df" "\<not> has_col ''username'' df" "reconcile ev df = Inr df'"
  shows "\<not> has_col ''username'' df'"
proof -
  define df1 where "df1 = (if has_col ''id'' df then rename_col ''id'' ''tweet_id'' df else df)"
  have u1: "\<not> has_col ''user'' df1" "\<not> has_col ''username'' df1"
    using assms(1,2) by (auto simp: df1_def has_col_rename)
  from assms(3) obtain df2 where f: "fill_missing ev required_columns df1 = Inr df2"
    and rest: "ebind (if has_col ''mental_health_terms'' df2
                  then ebind (get_col ''mental_health_terms'' df2) (\<lambda>v.
                       ebind (apply_e (coerce_terms ev) v) (\<lambda>w.
                         Inr (set_col ''mental_health_terms'' w df2)))
                  else Inr df2) (\<lambda>df3. Inr (extract_username ev df3)) = Inr df'"
    unfolding reconcile_def df1_def[symmetric] Let_def
    by (cases "fill_missing ev required_columns df1") (auto simp: ebind_def split: if_splits)
  have u2: "\<not> has_col ''user'' df2" "\<not> has_col ''username'' df2"
    using fill_missing_props[OF f, of "''user''"] fill_missing_props[OF f, of "''username''"] u1
    by (auto simp: required_columns_def)
  from rest obtain df3 where df3: "df' = extract_username ev df3"
    and c3: "df3 = df2 \<or> (\<exists>w. df3 = set_col ''mental_health_terms'' w df2)"
    by (auto simp: ebind_def split: if_splits sum.splits)
  from c3 u2 have "\<not> has_col ''user'' df3" "\<not> has_col ''username'' df3"
    by (auto simp: frame_simps)
  then show ?thesis using df3 by (simp add: has_col_extract_username)
qed

subsection \<open>A batch without user information\<close>

text \<open>
  C10: when the frame read from the CSV file has neither a \<^verbatim>\<open>user\<close> nor a \<^verbatim>\<open>username\<close>
  column, the import fails as a whole: it returns 0, and it fails before the first write,
  so the connection is as it was. No default is provided for \<^verbatim>\<open>username\<close>, and selecting
  the column for the posts frame raises KeyError.
\<close>

theorem import_needs_user_column:
  "\<not> has_col ''user'' df \<and> \<not> has_col ''username'' df
     \<longrightarrow> import_processed_data ev c (Inr df) = (c, 0)"
proof
  assume a: "\<not> has_col ''user'' df \<and> \<not> has_col ''username'' df"
  show "import_processed_data ev c (Inr df) = (c, 0)"
  proof (cases "reconcile ev df")
    case (Inl e)
    then show ?thesis by (simp add: import_processed_data_def import_body_def ebind_def)
  next
    case (Inr df')
    with a have "\<not> has_col ''username'' df'" using reconcile_no_username by blast
    moreover have "''username'' \<in> set [''tweet_id'', ''text'', ''cleaned_text'', ''created_at'',
                    ''collected_at'', ''search_keyword'', ''username'']" by simp
    ultimately obtain e where "select [''tweet_id'', ''text'', ''cleaned_text'', ''created_at'',
                    ''collected_at'', ''search_keyword'', ''username''] df' = Inl e"
      using select_missing by blast
    then have "tweets_frame df' = Inl e" by (simp add: tweets_frame_def ebind_def)
    with Inr show ?thesis by (simp add: import_processed_data_def import_body_def ebind_def)
  qed
qed


theorem import_needs_user_column_witness:
  "\<not> has_col ''user'' batch_no_user \<and> \<not> has_col ''username'' batch_no_user
   \<and> import_processed_data demo_env fresh_conn (Inr batch_no_user) = (fresh_conn, 0)"
proof -
  have h: "\<not> has_col ''user'' batch_no_user \<and> \<not> has_col ''username'' batch_no_user"
    by code_simp
  with import_needs_user_column [of batch_no_user demo_env fresh_conn] show ?thesis by simp
qed

subsection \<open>No row is excluded\<close>

lemma get_col_rename:
  "a \<noteq> old \<Longrightarrow> a \<noteq> new \<Longrightarrow> get_col a (rename_col old new df) = get_col a df"
proof -
  assume a: "a \<noteq> old" "a \<noteq> new"
  have m: "map_of (map (\<lambda>kv. (if fst kv = old then new else fst kv, snd kv)) xs) a = map_of xs a" for xs
    using a by (induction xs) auto
  show ?thesis by (simp add: get_col_def rename_col_def m)
qed

text \<open>The frame after the renaming step.\<close>

lemma reconcile_Inr:
  assumes "reconcile ev df = Inr df'"
  obtains df2 df3 where
    "fill_missing ev required_columns
       (if has_col ''id'' df then rename_col ''id'' ''tweet_id'' df else df) = Inr df2"
    "df3 = df2 \<or> (\<exists>v w. get_col ''mental_health_terms'' df2 = Inr v
                      \<and> apply_e (coerce_terms ev) v = Inr w
                      \<and> df3 = set_col ''mental_health_terms'' w df2)"
    "df' = extract_username ev df3"
proof -
  define df1 where "df1 = (if has_col ''id'' df then rename_col ''id'' ''tweet_id'' df else df)"
  from assms obtain df2 where f: "fill_missing ev required_columns df1 = Inr df2"
    and rest: "ebind (if has_col ''mental_health_terms'' df2
                  then ebind (get_col ''mental_health_terms'' df2) (\<lambda>v.
                       ebind (apply_e (coerce_terms ev) v) (\<lambda>w.
                         Inr (set_col ''mental_health_terms'' w df2)))
                  else Inr df2) (\<lambda>df3. Inr (extract_username ev df3)) = Inr df'"
    unfolding reconcile_def df1_def[symmetric] Let_def
    by (cases "fill_missing ev required_columns df1") (auto simp: ebind_def split: if_splits)
  from rest obtain df3 where df3: "df' = extract_username ev df3"
    and c3: "df3 = df2 \<or> (\<exists>v w. get_col ''mental_health_terms'' df2 = Inr v
                      \<and> apply_e (coerce_terms ev) v = Inr w
                      \<and> df3 = set_col ''mental_health_terms'' w df2)"
    by (auto simp: ebind_def split: if_splits sum.splits)
  show thesis using that[OF f[unfolded df1_def] c3 df3] .
qed

lemma reconcile_nrows: "reconcile ev df = Inr df' \<Longrightarrow> nrows df' = nrows df"
proof -
  assume a: "reconcile ev df = Inr df'"
  from a obtain df2 df3 where f: "fill_missing ev required_columns
       (if has_col ''id'' df then rename_col ''id'' ''tweet_id'' df else df) = Inr df2"
    and c: "df3 = df2 \<or> (\<exists>v w. get_col ''mental_health_terms'' df2 = Inr v
                      \<and> apply_e (coerce_terms ev) v = Inr w
                      \<and> df3 = set_col ''mental_health_terms'' w df2)"
    and d: "df' = extract_username ev df3"
    by (rule reconcile_Inr)
  have "nrows df2 = nrows df" using fill_missing_props[OF f, of "''x''"] by (simp add: nrows_rename split: if_splits)
  moreover have "nrows df3 = nrows df2" using c by (auto simp: frame_simps)
  ultimately show ?thesis using d by (simp add: nrows_extract_username)
qed

lemma reconcile_keeps_tweet_id:
  assumes "reconcile ev df = Inr df'" "has_col ''tweet_id'' df" "\<not> has_col ''id'' df"
  shows "get_col ''tweet_id'' df' = get_col ''tweet_id'' df"
proof -
  from assms(1) obtain df2 df3 where f: "fill_missing ev required_columns
       (if has_col ''id'' df then rename_col ''id'' ''tweet_id'' df else df) = Inr df2"
    and c: "df3 = df2 \<or> (\<exists>v w. get_col ''mental_health_terms'' df2 = Inr v
                      \<and> apply_e (coerce_terms ev) v = Inr w
                      \<and> df3 = set_col ''mental_health_terms'' w df2)"
    and d: "df' = extract_username ev df3"
    by (rule reconcile_Inr)
  from f assms(3) have f': "fill_missing ev required_columns df = Inr df2" by simp
  have "get_col ''tweet_id'' df2 = get_col ''tweet_id'' df"
    using fill_missing_props[OF f', of "''tweet_id''"] assms(2) by simp
  moreover have "get_col ''tweet_id'' df3 = get_col ''tweet_id'' df2"
    using c by (auto simp: frame_simps)
  ultimately show ?thesis using d by (simp add: get_col_extract_username)
qed

lemma get_col_renamed:
  assumes "\<not> has_col new df"
  shows "get_col new (rename_col old new df) = get_col old df"
proof -
  have m: "new \<notin> fst ` set xs \<Longrightarrow>
      map_of (map (\<lambda>kv. (if fst kv = old then new else fst kv, snd kv)) xs) new
        = map_of xs old" for xs :: "(string \<times> cell list) list"
    by (induction xs) auto
  show ?thesis using assms by (simp add: get_col_def rename_col_def m has_col_def columns_def)
qed

lemma has_col_renamed: "has_col old df \<Longrightarrow> has_col new (rename_col old new df)"
  by (force simp: has_col_def columns_def rename_col_def image_iff)

lemma reconcile_renames_id:
  assumes "reconcile ev df = Inr df'" "has_col ''id'' df" "\<not> has_col ''tweet_id'' df"
  shows "get_col ''tweet_id'' df' = get_col ''id'' df"
proof -
  from assms(1) obtain df2 df3 where f: "fill_missing ev required_columns
       (if has_col ''id'' df then rename_col ''id'' ''tweet_id'' df else df) = Inr df2"
    and c: "df3 = df2 \<or> (\<exists>v w. get_col ''mental_health_terms'' df2 = Inr v
                      \<and> apply_e (coerce_terms ev) v = Inr w
                      \<and> df3 = set_col ''mental_health_terms'' w df2)"
    and d: "df' = extract_username ev df3"
    by (rule reconcile_Inr)
  from f assms(2) have f': "fill_missing ev required_columns (rename_col ''id'' ''tweet_id'' df) = Inr df2"
    by simp
  have "get_col ''tweet_id'' df2 = get_col ''tweet_id'' (rename_col ''id'' ''tweet_id'' df)"
    using fill_missing_props[OF f', of "''tweet_id''"] has_col_renamed[OF assms(2)] by simp
  then have "get_col ''tweet_id'' df2 = get_col ''id'' df"
    by (simp add: get_col_renamed[OF assms(3)])
  moreover have "get_col ''tweet_id'' df3 = get_col ''tweet_id'' df2"
    using c by (auto simp: frame_simps)
  ultimately show ?thesis using d by (simp add: get_col_extract_username)
qed

lemma reconcile_synthesises_tweet_id:
  assumes "reconcile ev df = Inr df'" "\<not> has_col ''tweet_id'' df" "\<not> has_col ''id'' df"
  shows "get_col ''tweet_id'' df' = Inr (map (\<lambda>i. Str (str_of_nat i)) [0..<nrows df])"
proof -
  from assms(1) obtain df2 df3 where f: "fill_missing ev required_columns
       (if has_col ''id'' df then rename_col ''id'' ''tweet_id'' df else df) = Inr df2"
    and c: "df3 = df2 \<or> (\<exists>v w. get_col ''mental_health_terms'' df2 = Inr v
                      \<and> apply_e (coerce_terms ev) v = Inr w
                      \<and> df3 = set_col ''mental_health_terms'' w df2)"
    and d: "df' = extract_username ev df3"
    by (rule reconcile_Inr)
  from f assms(3) have f': "fill_missing ev required_columns df = Inr df2" by simp
  define d1 where "d1 = set_col ''tweet_id'' (map (\<lambda>i. Str (str_of_nat i)) [0..<nrows df]) df"
  have rc: "required_columns = ''tweet_id'' # tl required_columns"
    by (simp add: required_columns_def)
  have "fill_missing ev (tl required_columns) d1 = Inr df2"
    using f' assms(2) by (subst (asm) rc) (simp add: default_tweet_id ebind_def d1_def)
  from fill_missing_props[OF this, of "''tweet_id''"]
  have "get_col ''tweet_id'' df2 = get_col ''tweet_id'' d1" by (simp add: d1_def frame_simps)
  then have "get_col ''tweet_id'' df2 = Inr (map (\<lambda>i. Str (str_of_nat i)) [0..<nrows df])"
    by (simp add: d1_def frame_simps)
  moreover have "get_col ''tweet_id'' df3 = get_col ''tweet_id'' df2"
    using c by (auto simp: frame_simps)
  ultimately show ?thesis using d by (simp add: get_col_extract_username)
qed

lemma tweets_frame_Inr:
  assumes "tweets_frame df = Inr t"
  shows "nrows t = nrows df" and "get_col ''tweet_id'' t = get_col ''tweet_id'' df"
proof -
  let ?cs = "[''tweet_id'', ''text'', ''cleaned_text'', ''created_at'',
                    ''collected_at'', ''search_keyword'', ''username'']"
  from assms obtain t0 where s: "select ?cs df = Inr t0"
    by (cases "select ?cs df") (auto simp: tweets_frame_def ebind_def)
  have "\<exists>v w. t = set_col ''favorite_count'' w (set_col ''retweet_count'' v t0)"
    using assms s unfolding tweets_frame_def set_scalar_def ebind_def
    by (simp split: if_split_asm sum.split_asm; blast)
  then obtain v w where t: "t = set_col ''favorite_count'' w (set_col ''retweet_count'' v t0)"
    by blast
  show "nrows t = nrows df" using t select_Inr(1)[OF s] by (simp add: frame_simps)
  have "get_col ''tweet_id'' t0 = get_col ''tweet_id'' df" using select_Inr(3)[OF s] by simp
  then show "get_col ''tweet_id'' t = get_col ''tweet_id'' df" using t by (simp add: frame_simps)
qed

lemma import_body_Inr:
  assumes "import_body ev c csv = (c', Inr n)"
  obtains df tdf c1 sdf c2 terms c3 um c4 where
    "ebind csv (reconcile ev) = Inr df" "tweets_frame df = Inr tdf"
    "to_sql ''tweets'' tdf c = (c1, None)" "sentiment_frame df = Inr sdf"
    "to_sql ''tweet_sentiment'' sdf c1 = (c2, None)" "all_terms ev df = Inr terms"
    "update_terms (count_terms terms []) c2 = (c3, None)" "user_metrics_frame df = Inr um"
    "to_sql ''user_metrics'' um c3 = (c4, None)" "c' = commit c4" "n = nrows df"
proof -
  note d = import_body_def
  from assms obtain df where 1: "ebind csv (reconcile ev) = Inr df"
    by (cases "ebind csv (reconcile ev)") (simp_all add: d)
  from assms 1 obtain tdf where 2: "tweets_frame df = Inr tdf"
    by (cases "tweets_frame df") (simp_all add: d)
  obtain c1 x1 where 3: "to_sql ''tweets'' tdf c = (c1, x1)"
    by (cases "to_sql ''tweets'' tdf c")
  from assms 1 2 3 have x1: "x1 = None" by (cases x1) (simp_all add: d)
  from assms 1 2 3 x1 obtain sdf where 4: "sentiment_frame df = Inr sdf"
    by (cases "sentiment_frame df") (simp_all add: d)
  obtain c2 x2 where 5: "to_sql ''tweet_sentiment'' sdf c1 = (c2, x2)"
    by (cases "to_sql ''tweet_sentiment'' sdf c1")
  from assms 1 2 3 x1 4 5 have x2: "x2 = None" by (cases x2) (simp_all add: d)
  from assms 1 2 3 x1 4 5 x2 obtain terms where 6: "all_terms ev df = Inr terms"
    by (cases "all_terms ev df") (simp_all add: d)
  obtain c3 x3 where 7: "update_terms (count_terms terms []) c2 = (c3, x3)"
    by (cases "update_terms (count_terms terms []) c2")
  from assms 1 2 3 x1 4 5 x2 6 7 have x3: "x3 = None" by (cases x3) (simp_all add: d)
  from assms 1 2 3 x1 4 5 x2 6 7 x3 obtain um where 8: "user_metrics_frame df = Inr um"
    by (cases "user_metrics_frame df") (simp_all add: d)
  obtain c4 x4 where 9: "to_sql ''user_metrics'' um c3 = (c4, x4)"
    by (cases "to_sql ''user_metrics'' um c3")
  from assms 1 2 3 x1 4 5 x2 6 7 x3 8 9 have x4: "x4 = None" by (cases x4) (simp_all add: d)
  from assms 1 2 3 x1 4 5 x2 6 7 x3 8 9 x4 have 10: "c' = commit c4" "n = nrows df"
    by (simp_all add: d)
  show thesis
    using that[OF 1 2 3[unfolded x1] 4 5[unfolded x2] 6 7[unfolded x3] 8 9[unfolded x4] 10] .
qed

lemma import_body_count:
  "snd (import_body ev c (Inr df)) = Inr n \<Longrightarrow> n = nrows df"
proof -
  assume a: "snd (import_body ev c (Inr df)) = Inr n"
  obtain c' where "import_body ev c (Inr df) = (c', Inr n)"
    using a by (cases "import_body ev c (Inr df)") simp
  then obtain df' where r: "ebind (Inr df) (reconcile ev) = Inr df'" and n: "n = nrows df'"
    by (rule import_body_Inr)
  then show ?thesis by (simp add: reconcile_nrows ebind_def)
qed


text \<open>
  C1, as stated, fails: of two records, one without identifier, exactly one would be
  retained. The code keeps both (the posts table receives the row with the missing
  identifier) when the writes succeed, as on a connection without tables; on the database
  that \<^verbatim>\<open>create_database\<close> sets up it imports none, since the posts frame carries a
  column \<^verbatim>\<open>text\<close> and the table \<^verbatim>\<open>tweets\<close> names that column \<^verbatim>\<open>tweet_text\<close>.
\<close>

theorem missing_identifier_row_is_kept:
  "nrows batch_missing_id = 2
   \<and> get_col ''tweet_id'' batch_missing_id = Inr [Str ''t1'', NaN]
   \<and> snd (import_processed_data demo_env fresh_conn (Inr batch_missing_id)) = 2
   \<and> map_option (\<lambda>t. get_col ''tweet_id'' (tframe t))
         (tbl_tweets (committed (fst (import_processed_data demo_env fresh_conn
                                        (Inr batch_missing_id)))))
       = Some (Inr [Str ''t1'', NaN])
   \<and> snd (import_processed_data demo_env (create_database fresh_conn)
             (Inr batch_missing_id)) = 0"
  by code_simp

text \<open>
  C1, amended: the import never excludes a row. It reports either all N rows of the batch
  or 0; the reconciled frame and the posts frame have N rows; the identifier column,
  whether the file names it \<^verbatim>\<open>tweet_id\<close> or \<^verbatim>\<open>id\<close>, is taken over as it is, missing
  identifiers included, and when the frame has no identifier column at all the identifiers
  are the row indices.
\<close>

theorem import_keeps_every_row:
  "(snd (import_processed_data ev c (Inr df)) = 0
      \<or> snd (import_processed_data ev c (Inr df)) = nrows df)
   \<and> (reconcile ev df = Inr df' \<longrightarrow> nrows df' = nrows df)
   \<and> (reconcile ev df = Inr df' \<and> tweets_frame df' = Inr tweets_df
        \<longrightarrow> nrows tweets_df = nrows df
            \<and> get_col ''tweet_id'' tweets_df = get_col ''tweet_id'' df')
   \<and> (reconcile ev df = Inr df' \<and> has_col ''tweet_id'' df \<and> \<not> has_col ''id'' df
        \<longrightarrow> get_col ''tweet_id'' df' = get_col ''tweet_id'' df)
   \<and> (reconcile ev df = Inr df' \<and> has_col ''id'' df \<and> \<not> has_col ''tweet_id'' df
        \<longrightarrow> get_col ''tweet_id'' df' = get_col ''id'' df)
   \<and> (reconcile ev df = Inr df' \<and> \<not> has_col ''tweet_id'' df \<and> \<not> has_col ''id'' df
        \<longrightarrow> get_col ''tweet_id'' df' = Inr (map (\<lambda>i. Str (str_of_nat i)) [0..<nrows df]))"
proof -
  have 1: "snd (import_processed_data ev c (Inr df)) = 0
      \<or> snd (import_processed_data ev c (Inr df)) = nrows df"
  proof -
    obtain c' r where b: "import_body ev c (Inr df) = (c', r)"
      by (cases "import_body ev c (Inr df)")
    show ?thesis
    proof (cases r)
      case (Inl e)
      with b show ?thesis by (simp add: import_processed_data_def)
    next
      case (Inr n)
      with b have "snd (import_body ev c (Inr df)) = Inr n" by simp
      from import_body_count[OF this] Inr b show ?thesis
        by (simp add: import_processed_data_def)
    qed
  qed
  have 2: "reconcile ev df = Inr df' \<longrightarrow> nrows df' = nrows df"
    by (simp add: reconcile_nrows)
  have 3: "reconcile ev df = Inr df' \<and> tweets_frame df' = Inr tweets_df
        \<longrightarrow> nrows tweets_df = nrows df
            \<and> get_col ''tweet_id'' tweets_df = get_col ''tweet_id'' df'"
    using tweets_frame_Inr[of df' tweets_df] reconcile_nrows[of ev df df'] by simp
  have 4: "reconcile ev df = Inr df' \<and> has_col ''tweet_id'' df \<and> \<not> has_col ''id'' df
        \<longrightarrow> get_col ''tweet_id'' df' = get_col ''tweet_id'' df"
    using reconcile_keeps_tweet_id[of ev df df'] by blast
  have 5: "reconcile ev df = Inr df' \<and> \<not> has_col ''tweet_id'' df \<and> \<not> has_col ''id'' df
        \<longrightarrow> get_col ''tweet_id'' df' = Inr (map (\<lambda>i. Str (str_of_nat i)) [0..<nrows df])"
    using reconcile_synthesises_tweet_id[of ev df df'] by blast
  have 6: "reconcile ev df = Inr df' \<and> has_col ''id'' df \<and> \<not> has_col ''tweet_id'' df
        \<longrightarrow> get_col ''tweet_id'' df' = get_col ''id'' df"
    using reconcile_renames_id[of ev df df'] by blast
  from 1 2 3 4 6 5 show ?thesis by (intro conjI)
qed


theorem import_keeps_every_row_witness:
  "\<exists>df' t df'' df3 t3.
     reconcile demo_env batch_missing_id = Inr df' \<and> tweets_frame df' = Inr t
     \<and> has_col ''tweet_id'' batch_missing_id \<and> \<not> has_col ''id'' batch_missing_id
     \<and> nrows df' = 2 \<and> nrows t = 2
     \<and> get_col ''tweet_id'' t = Inr [Str ''t1'', NaN]
     \<and> \<not> has_col ''tweet_id'' (batch_missing_id\<lparr>cols := tl (cols batch_missing_id)\<rparr>)
     \<and> \<not> has_col ''id'' (batch_missing_id\<lparr>cols := tl (cols batch_missing_id)\<rparr>)
     \<and> reconcile demo_env (batch_missing_id\<lparr>cols := tl (cols batch_missing_id)\<rparr>) = Inr df''
     \<and> get_col ''tweet_id'' df'' = Inr [Str ''0'', Str ''1'']
     \<and> has_col ''id'' batch_id_alias \<and> \<not> has_col ''tweet_id'' batch_id_alias
     \<and> get_col ''id'' batch_id_alias = Inr [Num 101, NaN]
     \<and> reconcile demo_env batch_id_alias = Inr df3 \<and> tweets_frame df3 = Inr t3
     \<and> nrows t3 = 2
     \<and> get_col ''tweet_id'' df3 = Inr [Num 101, NaN]
     \<and> get_col ''tweet_id'' t3 = Inr [Num 101, NaN]
     \<and> snd (import_processed_data demo_env fresh_conn (Inr batch_id_alias)) = 2"
proof -
  let ?b = "batch_missing_id\<lparr>cols := tl (cols batch_missing_id)\<rparr>"
  have "\<not> isl (reconcile demo_env batch_missing_id)" by code_simp
  then obtain df' where r: "reconcile demo_env batch_missing_id = Inr df'"
    by (cases "reconcile demo_env batch_missing_id") auto
  have "\<not> isl (ebind (reconcile demo_env batch_missing_id) tweets_frame)" by code_simp
  then obtain t where t: "tweets_frame df' = Inr t"
    using r by (cases "tweets_frame df'") (auto simp: ebind_def)
  have h: "has_col ''tweet_id'' batch_missing_id" "\<not> has_col ''id'' batch_missing_id"
    "nrows batch_missing_id = 2"
    "get_col ''tweet_id'' batch_missing_id = Inr [Str ''t1'', NaN]"
    by code_simp+
  have "\<not> isl (reconcile demo_env ?b)" by code_simp
  then obtain df'' where r': "reconcile demo_env ?b = Inr df''"
    by (cases "reconcile demo_env ?b") auto
  have h': "\<not> has_col ''tweet_id'' ?b" "\<not> has_col ''id'' ?b"
    "map (\<lambda>i. Str (str_of_nat i)) [0..<nrows ?b] = [Str ''0'', Str ''1'']"
    by code_simp+
  from import_keeps_every_row [of demo_env fresh_conn batch_missing_id df' t] r t h
  have a: "nrows df' = 2" "nrows t = 2" "get_col ''tweet_id'' t = Inr [Str ''t1'', NaN]"
    by simp_all
  from import_keeps_every_row
    [where ev = demo_env and c = fresh_conn and df = ?b and df' = df''] r' h'
  have b: "get_col ''tweet_id'' df'' = Inr [Str ''0'', Str ''1'']"
    by simp
  have "\<not> isl (reconcile demo_env batch_id_alias)" by code_simp
  then obtain df3 where r3: "reconcile demo_env batch_id_alias = Inr df3"
    by (cases "reconcile demo_env batch_id_alias") auto
  have "\<not> isl (ebind (reconcile demo_env batch_id_alias) tweets_frame)" by code_simp
  then obtain t3 where t3: "tweets_frame df3 = Inr t3"
    using r3 by (cases "tweets_frame df3") (auto simp: ebind_def)
  have h3: "has_col ''id'' batch_id_alias" "\<not> has_col ''tweet_id'' batch_id_alias"
    "get_col ''id'' batch_id_alias = Inr [Num 101, NaN]"
    "nrows batch_id_alias = 2"
    by code_simp+
  have n3: "snd (import_processed_data demo_env fresh_conn (Inr batch_id_alias)) \<noteq> 0"
    by code_simp
  from import_keeps_every_row [of demo_env fresh_conn batch_id_alias df3 t3] r3 t3 h3 n3
  have a3: "nrows t3 = 2" "get_col ''tweet_id'' df3 = Inr [Num 101, NaN]"
    "get_col ''tweet_id'' t3 = Inr [Num 101, NaN]"
    "snd (import_processed_data demo_env fresh_conn (Inr batch_id_alias)) = 2"
    by simp_all
  from r t h a h' r' b r3 t3 h3 a3 show ?thesis by blast
qed

subsection \<open>A term list that does not evaluate\<close>

lemma eval_failure_aborts_import:
  assumes "get_col ''mental_health_terms'' df = Inr v" "Str x \<in> set v"
    "starts_with_bracket x" "py_eval ev x = Inl e"
  shows "import_processed_data ev c (Inr df) = (c, 0)"
proof (cases "reconcile ev df")
  case (Inl e')
  then show ?thesis by (simp add: import_processed_data_def import_body_def ebind_def)
next
  case (Inr df')
  define df1 where "df1 = (if has_col ''id'' df then rename_col ''id'' ''tweet_id'' df else df)"
  have g1: "get_col ''mental_health_terms'' df1 = Inr v"
    using assms(1) by (simp add: df1_def get_col_rename)
  from Inr obtain df2 where f: "fill_missing ev required_columns df1 = Inr df2"
    unfolding reconcile_def df1_def[symmetric] Let_def
    by (cases "fill_missing ev required_columns df1") (auto simp: ebind_def split: if_splits)
  have g2: "get_col ''mental_health_terms'' df2 = Inr v" "has_col ''mental_health_terms'' df2"
    using fill_missing_props[OF f, of "''mental_health_terms''"] g1 get_col_Inr_has[OF g1]
    by auto
  have "coerce_terms ev (Str x) = Inl e" using assms(3,4) by (simp add: ebind_def)
  from apply_e_raises[of _ _ "coerce_terms ev", OF assms(2) this] obtain e' where "apply_e (coerce_terms ev) v = Inl e'"
    by blast
  then have "reconcile ev df = Inl e'"
    using Inr f g2 unfolding reconcile_def df1_def[symmetric] Let_def
    by (auto simp: ebind_def split: if_splits)
  with Inr show ?thesis by simp
qed

text \<open>
  C2 at its failing input: a cell of \<^verbatim>\<open>mental_health_terms\<close> that is a string starting with
  \<^verbatim>\<open>[\<close> goes to \<^verbatim>\<open>eval\<close> unguarded. When \<^verbatim>\<open>eval\<close> raises on it, as on \<^verbatim>\<open>[anxiety\<close>, the
  exception ends the import: 0 is returned and nothing is written. A string that does not
  start with \<^verbatim>\<open>[\<close> is replaced by the encoding of the empty list.
\<close>

theorem unparsable_term_list_aborts_import:
  "(get_col ''mental_health_terms'' df = Inr v \<and> Str x \<in> set v
      \<and> starts_with_bracket x \<and> py_eval ev x = Inl e
     \<longrightarrow> import_processed_data ev c (Inr df) = (c, 0))
   \<and> (\<not> starts_with_bracket y \<longrightarrow> coerce_terms ev (Str y) = Inr (Json (Lst [])))"
  using eval_failure_aborts_import [of df v x ev e c]
  by (simp add: json_dumps_def)

theorem unparsable_term_list_aborts_import_witness:
  "get_col ''mental_health_terms'' batch_bad_terms = Inr [Str ''[anxiety'']
   \<and> Str ''[anxiety'' \<in> set [Str ''[anxiety'']
   \<and> starts_with_bracket ''[anxiety''
   \<and> py_eval demo_env ''[anxiety'' = Inl SyntaxError
   \<and> import_processed_data demo_env terms_only_conn (Inr batch_bad_terms)
       = (terms_only_conn, 0)
   \<and> \<not> starts_with_bracket ''anxiety, stress''
   \<and> coerce_terms demo_env (Str ''anxiety, stress'') = Inr (Json (Lst []))"
proof -
  have h: "get_col ''mental_health_terms'' batch_bad_terms = Inr [Str ''[anxiety'']"
    "starts_with_bracket ''[anxiety''"
    "py_eval demo_env ''[anxiety'' = Inl SyntaxError"
    "\<not> starts_with_bracket ''anxiety, stress''"
    by code_simp+
  from unparsable_term_list_aborts_import
    [of batch_bad_terms "[Str ''[anxiety'']" "''[anxiety''" demo_env SyntaxError
        terms_only_conn "''anxiety, stress''"] h
  show ?thesis by simp
qed

subsection \<open>Writes that completed before a failure\<close>

lemma ebind_Inr: "ebind m f = Inr y \<longleftrightarrow> (\<exists>x. m = Inr x \<and> f x = Inr y)"
  by (cases m) (auto simp: ebind_def)

lemma terms_put_table:
  "tbl_mental_health_terms (put_table name t d) = tbl_mental_health_terms d"
  by (simp add: put_table_def)

lemma to_sql_working_terms:
  "to_sql name f c = (c', None) \<Longrightarrow>
     tbl_mental_health_terms (working c') = tbl_mental_health_terms (working c)"
  unfolding to_sql_def Let_def
  by (auto simp: commit_def terms_put_table split: if_splits option.splits sum.splits)

lemma to_sql_failure_clean:
  "to_sql name f c = (c', Some e) \<Longrightarrow> working c' = committed c'"
  unfolding to_sql_def Let_def
  by (auto simp: commit_def rollback_def split: if_splits option.splits sum.splits)

lemma tweets_put_other:
  "name \<noteq> ''tweets'' \<Longrightarrow> tbl_tweets (put_table name t d) = tbl_tweets d"
  by (simp add: put_table_def)

lemma to_sql_other_keeps_tweets:
  assumes "name \<noteq> ''tweets''" "to_sql name f c = (c', x)"
    "tbl_tweets (committed c) = T" "tbl_tweets (working c) = T"
  shows "tbl_tweets (committed c') = T \<and> tbl_tweets (working c') = T"
  using assms unfolding to_sql_def Let_def
  by (auto simp: commit_def rollback_def tweets_put_other split: if_splits option.splits sum.splits)

lemma update_terms_keeps_tweets:
  "update_terms tc c = (c', x) \<Longrightarrow>
     tbl_tweets (committed c') = tbl_tweets (committed c)
     \<and> tbl_tweets (working c') = tbl_tweets (working c)"
proof (induction tc arbitrary: c)
  case Nil then show ?case by simp
next
  case (Cons a tc)
  obtain tm n where a: "a = (tm, n)" by (cases a)
  show ?case
  proof (cases "tbl_mental_health_terms (working c)")
    case None with Cons.prems a show ?thesis by simp
  next
    case (Some rows)
    with Cons.prems a have "update_terms tc
            (c\<lparr>working := (working c)\<lparr>tbl_mental_health_terms := Some (upsert_term tm n rows)\<rparr>\<rparr>) = (c', x)"
      by simp
    from Cons.IH[OF this] show ?thesis by simp
  qed
qed

lemma insert_rows_nrows:
  "insert_rows t f = Inr t' \<Longrightarrow> nrows (tframe t') = nrows (tframe t) + nrows f"
  unfolding insert_rows_def Let_def by (auto split: if_splits)

lemma to_sql_tweets_written:
  assumes "to_sql ''tweets'' f c = (c1, None)" "0 < nrows f"
  shows "tbl_tweets (committed c1) = tbl_tweets (working c1)
     \<and> (\<exists>t'. tbl_tweets (working c1) = Some t'
           \<and> nrows (tframe t')
               = (case tbl_tweets (working c) of None \<Rightarrow> 0 | Some t \<Rightarrow> nrows (tframe t))
                 + nrows f)"
  using assms unfolding to_sql_def Let_def
  by (auto simp: commit_def get_table_def put_table_def dest!: insert_rows_nrows
      split: if_splits option.splits sum.splits)

lemma import_after_tweets:
  assumes 1: "ebind csv (reconcile ev) = Inr df" and 2: "tweets_frame df = Inr tdf"
    and 3: "to_sql ''tweets'' tdf c = (c1, None)"
    and T: "tbl_tweets (committed c1) = T" "tbl_tweets (working c1) = T"
  shows "tbl_tweets (committed (fst (import_body ev c csv))) = T
     \<and> tbl_tweets (working (fst (import_body ev c csv))) = T"
proof -
  note d = import_body_def
  show ?thesis
  proof (cases "sentiment_frame df")
    case (Inl e) with 1 2 3 T show ?thesis by (simp add: d)
  next
    case sf: (Inr sdf)
    obtain c2 x2 where 5: "to_sql ''tweet_sentiment'' sdf c1 = (c2, x2)"
      by (cases "to_sql ''tweet_sentiment'' sdf c1")
    have T2: "tbl_tweets (committed c2) = T" "tbl_tweets (working c2) = T"
      using to_sql_other_keeps_tweets[OF _ 5 T] by simp_all
    show ?thesis
    proof (cases x2)
      case (Some e) with 1 2 3 sf 5 T2 show ?thesis by (simp add: d)
    next
      case x2: None
      show ?thesis
      proof (cases "all_terms ev df")
        case (Inl e) with 1 2 3 sf 5 x2 T2 show ?thesis by (simp add: d)
      next
        case at: (Inr terms)
        obtain c3 x3 where 7: "update_terms (count_terms terms []) c2 = (c3, x3)"
          by (cases "update_terms (count_terms terms []) c2")
        have T3: "tbl_tweets (committed c3) = T" "tbl_tweets (working c3) = T"
          using update_terms_keeps_tweets[OF 7] T2 by simp_all
        show ?thesis
        proof (cases x3)
          case (Some e) with 1 2 3 sf 5 x2 at 7 T3 show ?thesis by (simp add: d)
        next
          case x3: None
          show ?thesis
          proof (cases "user_metrics_frame df")
            case (Inl e) with 1 2 3 sf 5 x2 at 7 x3 T3 show ?thesis by (simp add: d)
          next
            case um: (Inr um)
            obtain c4 x4 where 9: "to_sql ''user_metrics'' um c3 = (c4, x4)"
              by (cases "to_sql ''user_metrics'' um c3")
            have T4: "tbl_tweets (committed c4) = T" "tbl_tweets (working c4) = T"
              using to_sql_other_keeps_tweets[OF _ 9 T3] by simp_all
            show ?thesis
            proof (cases x4)
              case (Some e) with 1 2 3 sf 5 x2 at 7 x3 um 9 T4 show ?thesis by (simp add: d)
            next
              case None with 1 2 3 sf 5 x2 at 7 x3 um 9 T4 show ?thesis
                by (simp add: d commit_def)
            qed
          qed
        qed
      qed
    qed
  qed
qed

lemma fst_import: "fst (import_processed_data ev c csv) = fst (import_body ev c csv)"
  by (cases "import_body ev c csv"; cases "snd (import_body ev c csv)")
     (auto simp: import_processed_data_def)

text \<open>
  C3, as stated, fails: on a connection to a database without tables the posts and the
  sentiment rows of the batch are written and committed; then the first term upsert raises
  (the term table does not exist), 0 is returned, and both tables keep the rows of the
  batch.
\<close>

theorem failed_import_leaves_rows_behind:
  "snd (import_processed_data demo_env fresh_conn (Inr batch_terms)) = 0
   \<and> tbl_tweets (committed fresh_conn) = None
   \<and> tbl_tweet_sentiment (committed fresh_conn) = None
   \<and> map_option (\<lambda>t. get_col ''tweet_id'' (tframe t))
         (tbl_tweets (committed (fst (import_processed_data demo_env fresh_conn
                                        (Inr batch_terms)))))
       = Some (Inr [Str ''t1'', Str ''t2''])
   \<and> map_option (\<lambda>t. get_col ''tweet_id'' (tframe t))
         (tbl_tweet_sentiment (committed (fst (import_processed_data demo_env fresh_conn
                                                 (Inr batch_terms)))))
       = Some (Inr [Str ''t1'', Str ''t2''])"
  by code_simp

text \<open>
  C3, amended: when a step of the import raises, 0 is reported. When the posts write, the
  first one, is the step that fails, it is rolled back and the connection holds no
  uncommitted change. But a write that has completed is never undone: once the posts of a
  batch with at least one row are written, the posts table, committed and as the
  connection sees it, stays as that write left it (the rows of the batch appended),
  whatever happens in the later steps.
\<close>

theorem failed_import_keeps_completed_writes:
  "(snd (import_body ev c csv) = Inl e \<longrightarrow> snd (import_processed_data ev c csv) = 0)
   \<and> (ebind csv (reconcile ev) = Inr df \<and> tweets_frame df = Inr tdf
        \<and> to_sql ''tweets'' tdf c = (c1, Some e)
      \<longrightarrow> import_processed_data ev c csv = (c1, 0) \<and> working c1 = committed c1)
   \<and> (ebind csv (reconcile ev) = Inr df \<and> tweets_frame df = Inr tdf \<and> 0 < nrows df
        \<and> to_sql ''tweets'' tdf c = (c1, None)
      \<longrightarrow> tbl_tweets (committed (fst (import_processed_data ev c csv))) = tbl_tweets (working c1)
          \<and> tbl_tweets (working (fst (import_processed_data ev c csv))) = tbl_tweets (working c1)
          \<and> (\<exists>t'. tbl_tweets (working c1) = Some t'
                \<and> nrows (tframe t')
                    = (case tbl_tweets (working c) of None \<Rightarrow> 0 | Some t \<Rightarrow> nrows (tframe t))
                      + nrows df))"
proof (intro conjI impI)
  assume "snd (import_body ev c csv) = Inl e"
  then show "snd (import_processed_data ev c csv) = 0"
    by (cases "import_body ev c csv") (simp add: import_processed_data_def)
next
  assume a: "ebind csv (reconcile ev) = Inr df \<and> tweets_frame df = Inr tdf
        \<and> to_sql ''tweets'' tdf c = (c1, Some e)"
  then show "import_processed_data ev c csv = (c1, 0)"
    by (simp add: import_processed_data_def import_body_def)
  from a show "working c1 = committed c1" using to_sql_failure_clean by blast
next
  assume a: "ebind csv (reconcile ev) = Inr df \<and> tweets_frame df = Inr tdf \<and> 0 < nrows df
        \<and> to_sql ''tweets'' tdf c = (c1, None)"
  then have n: "0 < nrows tdf" using tweets_frame_Inr(1)[of df tdf] by simp
  from a have ts: "to_sql ''tweets'' tdf c = (c1, None)" by simp
  note w = to_sql_tweets_written[OF ts n]
  from w have cw: "tbl_tweets (committed c1) = tbl_tweets (working c1)" by simp
  from import_after_tweets[OF _ _ ts cw refl, of csv ev df] a
  show "tbl_tweets (committed (fst (import_processed_data ev c csv))) = tbl_tweets (working c1)"
    and "tbl_tweets (working (fst (import_processed_data ev c csv))) = tbl_tweets (working c1)"
    by (simp_all add: fst_import)
  from w tweets_frame_Inr(1)[of df tdf] a
  show "\<exists>t'. tbl_tweets (working c1) = Some t'
                \<and> nrows (tframe t')
                    = (case tbl_tweets (working c) of None \<Rightarrow> 0 | Some t \<Rightarrow> nrows (tframe t))
                      + nrows df"
    by simp
qed

theorem failed_import_keeps_completed_writes_witness:
  "\<exists>df tdf c1 c1'.
     ebind (Inr batch_terms) (reconcile demo_env) = Inr df \<and> tweets_frame df = Inr tdf
     \<and> 0 < nrows df
     \<and> to_sql ''tweets'' tdf fresh_conn = (c1, None)
     \<and> snd (import_body demo_env fresh_conn (Inr batch_terms)) = Inl OperationalError
     \<and> snd (import_processed_data demo_env fresh_conn (Inr batch_terms)) = 0
     \<and> tbl_tweets (committed (fst (import_processed_data demo_env fresh_conn
                                      (Inr batch_terms)))) = tbl_tweets (working c1)
     \<and> (\<exists>t'. tbl_tweets (working c1) = Some t' \<and> nrows (tframe t') = 2)
     \<and> to_sql ''tweets'' tdf (create_database fresh_conn) = (c1', Some OperationalError)
     \<and> import_processed_data demo_env (create_database fresh_conn) (Inr batch_terms)
         = (c1', 0)
     \<and> working c1' = committed c1'"
proof -
  have "\<not> isl (reconcile demo_env batch_terms)" by code_simp
  then obtain df where r: "ebind (Inr batch_terms) (reconcile demo_env) = Inr df"
    by (cases "reconcile demo_env batch_terms") (auto simp: ebind_def)
  have "\<not> isl (ebind (reconcile demo_env batch_terms) tweets_frame)" by code_simp
  then obtain tdf where t: "tweets_frame df = Inr tdf"
    using r by (cases "tweets_frame df") (auto simp: ebind_def)
  have n2: "nrows df = 2" using r reconcile_nrows[of demo_env batch_terms df]
    by (simp add: ebind_def batch_terms_def)
  then have n: "0 < nrows df" by simp
  obtain c1 x where s: "to_sql ''tweets'' tdf fresh_conn = (c1, x)"
    by (cases "to_sql ''tweets'' tdf fresh_conn")
  have "ebind (ebind (reconcile demo_env batch_terms) tweets_frame)
          (\<lambda>f. Inr (snd (to_sql ''tweets'' f fresh_conn))) = Inr None"
    by code_simp
  with r t s have x: "x = None" by (simp add: ebind_def)
  obtain c1' x' where s': "to_sql ''tweets'' tdf (create_database fresh_conn) = (c1', x')"
    by (cases "to_sql ''tweets'' tdf (create_database fresh_conn)")
  have "ebind (ebind (reconcile demo_env batch_terms) tweets_frame)
          (\<lambda>f. Inr (snd (to_sql ''tweets'' f (create_database fresh_conn))))
        = Inr (Some OperationalError)"
    by code_simp
  with r t s' have x': "x' = Some OperationalError" by (simp add: ebind_def)
  have b: "snd (import_body demo_env fresh_conn (Inr batch_terms)) = Inl OperationalError"
    by code_simp
  have w0: "tbl_tweets (working fresh_conn) = None"
    by (simp add: fresh_conn_def empty_db_def)
  note A = failed_import_keeps_completed_writes
      [of demo_env fresh_conn "Inr batch_terms" OperationalError df tdf c1]
  note B = failed_import_keeps_completed_writes
      [of demo_env "create_database fresh_conn" "Inr batch_terms" OperationalError df tdf c1']
  from A b have 1: "snd (import_processed_data demo_env fresh_conn (Inr batch_terms)) = 0"
    by blast
  from A r t n s x
  have 2: "tbl_tweets (committed (fst (import_processed_data demo_env fresh_conn
                                      (Inr batch_terms)))) = tbl_tweets (working c1)"
    and 3: "\<exists>t'. tbl_tweets (working c1) = Some t' \<and> nrows (tframe t') = 2"
    by (auto simp: w0 n2)
  from B r t s' x'
  have 4: "import_processed_data demo_env (create_database fresh_conn) (Inr batch_terms)
         = (c1', 0)" and 5: "working c1' = committed c1'"
    by simp_all
  from r t n s x b 1 2 3 s' x' 4 5 show ?thesis by blast
qed

subsection \<open>The posts table of create\_database\<close>

text \<open>
  The posts frame always carries a column \<^verbatim>\<open>text\<close>. A posts table without that column
  rejects every insert, so on the database that \<^verbatim>\<open>create_database\<close> sets up, where the
  column is named \<^verbatim>\<open>tweet_text\<close>, no batch with at least one row is imported.
\<close>

lemma tweets_frame_has_text: "tweets_frame df = Inr t \<Longrightarrow> has_col ''text'' t"
proof -
  assume a: "tweets_frame df = Inr t"
  let ?cs = "[''tweet_id'', ''text'', ''cleaned_text'', ''created_at'',
                    ''collected_at'', ''search_keyword'', ''username'']"
  from a obtain t0 where s: "select ?cs df = Inr t0"
    by (cases "select ?cs df") (auto simp: tweets_frame_def ebind_def)
  have "\<exists>v w. t = set_col ''favorite_count'' w (set_col ''retweet_count'' v t0)"
    using a s unfolding tweets_frame_def set_scalar_def ebind_def
    by (simp split: if_split_asm sum.split_asm; blast)
  moreover have "has_col ''text'' t0" using select_Inr(2)[OF s] by (simp add: has_col_def)
  ultimately show ?thesis by (auto simp: frame_simps)
qed

lemma posts_insert_needs_text_column:
  assumes "tbl_tweets (working c) = Some t" "''text'' \<notin> set (columns (tframe t))"
    "0 < nrows df"
  shows "snd (import_processed_data ev c (Inr df)) = 0"
proof (cases "reconcile ev df")
  case (Inl e)
  then show ?thesis by (simp add: import_processed_data_def import_body_def ebind_def)
next
  case r: (Inr df')
  show ?thesis
  proof (cases "tweets_frame df'")
    case (Inl e)
    with r show ?thesis by (simp add: import_processed_data_def import_body_def ebind_def)
  next
    case tf: (Inr tdf)
    have n: "nrows tdf \<noteq> 0"
      using tweets_frame_Inr(1)[OF tf] reconcile_nrows[OF r] assms(3) by simp
    have "\<not> set (columns tdf) \<subseteq> set (columns (tframe t))"
      using tweets_frame_has_text[OF tf] assms(2) by (auto simp: has_col_def)
    then have "insert_rows t tdf = Inl OperationalError" by (simp add: insert_rows_def)
    then have "to_sql ''tweets'' tdf c = (rollback c, Some OperationalError)"
      using assms(1) n by (simp add: to_sql_def get_table_def)
    with r tf show ?thesis by (simp add: import_processed_data_def import_body_def ebind_def)
  qed
qed

lemma import_into_created_database_fails:
  "0 < nrows df \<Longrightarrow>
     snd (import_processed_data ev (create_database fresh_conn) (Inr df)) = 0"
proof -
  assume n: "0 < nrows df"
  have "map_option (\<lambda>t. ''text'' \<in> set (columns (tframe t)))
          (tbl_tweets (working (create_database fresh_conn))) = Some False"
    by code_simp
  then have "\<exists>t. tbl_tweets (working (create_database fresh_conn)) = Some t
            \<and> ''text'' \<notin> set (columns (tframe t))"
    by (cases "tbl_tweets (working (create_database fresh_conn))") auto
  then show ?thesis using posts_insert_needs_text_column n by blast
qed

subsection \<open>Term counts over repeated imports\<close>

lemma count_get_update:
  "count_get (AList.update k v tc) t = (if t = k then v else count_get tc t)"
  by (simp add: count_get_def update_conv')

lemma count_terms_props:
  "distinct (map fst tc) \<Longrightarrow>
     distinct (map fst (count_terms ts tc))
     \<and> count_get (count_terms ts tc) t = count_get tc t + int (count_list ts t)"
proof (induction ts arbitrary: tc)
  case Nil then show ?case by simp
next
  case (Cons a ts)
  let ?tc = "AList.update a (count_get tc a + 1) tc"
  have "distinct (map fst ?tc)" using Cons.prems by (simp add: distinct_update)
  from Cons.IH[OF this] show ?case by (auto simp: count_get_update)
qed

lemma count_get_absent: "t \<notin> fst ` set tc \<Longrightarrow> count_get tc t = 0"
  by (simp add: count_get_def map_of_eq_None_iff[THEN iffD2])

lemma map_of_upsert_map:
  "map_of (map (\<lambda>r. if fst r = k then (fst r, fst (snd r), snd (snd r) + n) else r) rows) t
     = (if t = k then map_option (\<lambda>r. (fst r, snd r + n)) (map_of rows t) else map_of rows t)"
  by (induction rows) auto

lemma term_count_upsert:
  "term_count (d\<lparr>tbl_mental_health_terms := Some (upsert_term k n rows)\<rparr>) t
     = term_count (d\<lparr>tbl_mental_health_terms := Some rows\<rparr>) t + (if t = k then n else 0)"
proof (cases "k \<in> set (map fst rows)")
  case True
  then have "map_of rows k \<noteq> None" by (simp add: map_of_eq_None_iff)
  then show ?thesis using True
    by (auto simp: term_count_def upsert_term_def map_of_upsert_map split: option.splits)
next
  case False
  then have "map_of rows k = None" by (simp add: map_of_eq_None_iff)
  then show ?thesis using False
    by (auto simp: term_count_def upsert_term_def map_add_def split: option.splits)
qed

lemma update_terms_counts:
  "update_terms tc c = (c', None) \<Longrightarrow> distinct (map fst tc) \<Longrightarrow>
     term_count (working c') t = term_count (working c) t + count_get tc t"
proof (induction tc arbitrary: c)
  case Nil then show ?case by (simp add: count_get_def)
next
  case (Cons a tc)
  obtain k n where a: "a = (k, n)" by (cases a)
  from Cons.prems a obtain rows where rows: "tbl_mental_health_terms (working c) = Some rows"
    by (cases "tbl_mental_health_terms (working c)") auto
  let ?c = "c\<lparr>working := (working c)\<lparr>tbl_mental_health_terms := Some (upsert_term k n rows)\<rparr>\<rparr>"
  from Cons.prems a rows have u: "update_terms tc ?c = (c', None)" by simp
  from Cons.prems a have dis: "distinct (map fst tc)" and k: "k \<notin> fst ` set tc" by auto
  have w: "(working c)\<lparr>tbl_mental_health_terms := Some rows\<rparr> = working c"
    using rows by (cases "working c") auto
  have "term_count (working ?c) t = term_count (working c) t + (if t = k then n else 0)"
    using term_count_upsert[where d = "working c" and k = k and n = n and rows = rows and t = t] w
    by simp
  moreover have "term_count (working c') t = term_count (working ?c) t + count_get tc t"
    using Cons.IH[OF u dis] .
  moreover have "count_get (a # tc) t = (if t = k then n else count_get tc t)"
    using a by (simp add: count_get_def)
  moreover have "t = k \<Longrightarrow> count_get tc t = 0" using k count_get_absent by simp
  ultimately show ?case by auto
qed

lemma import_adds_counts:
  assumes "import_body ev c csv = (c', Inr n)" "ebind csv (reconcile ev) = Inr df"
    "all_terms ev df = Inr terms"
  shows "term_count (working c') t = term_count (working c) t + int (count_list terms t)
     \<and> committed c' = working c'"
proof -
  from assms(1) obtain df0 tdf c1 sdf c2 terms0 c3 um c4 where
    r: "ebind csv (reconcile ev) = Inr df0" and
    s1: "to_sql ''tweets'' tdf c = (c1, None)" and
    s2: "to_sql ''tweet_sentiment'' sdf c1 = (c2, None)" and
    at: "all_terms ev df0 = Inr terms0" and
    u: "update_terms (count_terms terms0 []) c2 = (c3, None)" and
    s3: "to_sql ''user_metrics'' um c3 = (c4, None)" and
    c': "c' = commit c4"
    by (rule import_body_Inr)
  from r assms(2) have "df0 = df" by simp
  with at assms(3) have t0: "terms0 = terms" by simp
  have ct: "distinct (map fst (count_terms terms []))"
    "count_get (count_terms terms []) t = int (count_list terms t)"
    using count_terms_props[of "[]" terms t] by (simp_all add: count_get_def)
  have "term_count (working c3) t = term_count (working c2) t + int (count_list terms t)"
    using update_terms_counts[OF u[unfolded t0] ct(1)] ct(2) by simp
  moreover have "term_count (working c2) t = term_count (working c) t"
    using to_sql_working_terms[OF s1] to_sql_working_terms[OF s2] by (simp add: term_count_def)
  moreover have "term_count (working c4) t = term_count (working c3) t"
    using to_sql_working_terms[OF s3] by (simp add: term_count_def)
  ultimately show ?thesis using c' by (simp add: commit_def)
qed

text \<open>
  C4, as stated, fails. On the database that \<^verbatim>\<open>create_database\<close> sets up, importing a batch
  that tags \<^verbatim>\<open>anxiety\<close> twice leaves the count of \<^verbatim>\<open>anxiety\<close> at 0 after two imports: each
  import fails at the posts insert (the frame's column \<^verbatim>\<open>text\<close> is not a column of the
  table) before any count is touched. And where the posts table has the frame's columns
  and \<^verbatim>\<open>tweet_id\<close> as key, the first import sets the count to 2 and the second import of
  the same batch fails on the repeated keys and leaves it at 2, not 4.
\<close>

theorem reimport_does_not_double_counts:
  "ebind (reconcile demo_env batch_terms) (all_terms demo_env)
     = Inr [''anxiety'', ''stress'', ''anxiety'']
   \<and> snd (import_processed_data demo_env (create_database fresh_conn) (Inr batch_terms)) = 0
   \<and> snd (import_processed_data demo_env
          (fst (import_processed_data demo_env (create_database fresh_conn) (Inr batch_terms)))
          (Inr batch_terms)) = 0
   \<and> term_count (working (fst (import_processed_data demo_env
          (fst (import_processed_data demo_env (create_database fresh_conn) (Inr batch_terms)))
          (Inr batch_terms)))) ''anxiety'' = 0
   \<and> snd (import_processed_data demo_env keyed_conn (Inr batch_terms)) = 2
   \<and> term_count (working (fst (import_processed_data demo_env keyed_conn
                                   (Inr batch_terms)))) ''anxiety'' = 2
   \<and> snd (import_processed_data demo_env
          (fst (import_processed_data demo_env keyed_conn (Inr batch_terms)))
          (Inr batch_terms)) = 0
   \<and> term_count (working (fst (import_processed_data demo_env
          (fst (import_processed_data demo_env keyed_conn (Inr batch_terms)))
          (Inr batch_terms)))) ''anxiety'' = 2"
  by code_simp

text \<open>
  C4, amended: counts are additive across imports that complete. An import whose body
  raises nothing adds to the count of every term exactly the number of times the batch
  tags it; two such imports of one batch add twice that number, and the result is
  committed. The count is incremented in place, never recomputed.
\<close>

theorem term_counts_add_up:
  "import_body ev c csv = (c1, Inr n1) \<and> import_body ev c1 csv = (c2, Inr n2)
     \<and> ebind csv (reconcile ev) = Inr df \<and> all_terms ev df = Inr terms
   \<longrightarrow> term_count (working c1) t = term_count (working c) t + int (count_list terms t)
       \<and> term_count (working c2) t = term_count (working c) t + 2 * int (count_list terms t)
       \<and> term_count (committed c2) t = term_count (working c2) t"
proof
  assume a: "import_body ev c csv = (c1, Inr n1) \<and> import_body ev c1 csv = (c2, Inr n2)
     \<and> ebind csv (reconcile ev) = Inr df \<and> all_terms ev df = Inr terms"
  from a import_adds_counts[of ev c csv c1 n1 df terms t]
  have 1: "term_count (working c1) t = term_count (working c) t + int (count_list terms t)"
    by simp
  from a import_adds_counts[of ev c1 csv c2 n2 df terms t]
  have 2: "term_count (working c2) t = term_count (working c1) t + int (count_list terms t)"
    and 3: "committed c2 = working c2"
    by simp_all
  from 1 2 3 show "term_count (working c1) t = term_count (working c) t + int (count_list terms t)
       \<and> term_count (working c2) t = term_count (working c) t + 2 * int (count_list terms t)
       \<and> term_count (committed c2) t = term_count (working c2) t"
    by simp
qed


theorem term_counts_add_up_witness:
  "\<exists>c1 c2 df.
     import_body demo_env terms_only_conn (Inr batch_terms) = (c1, Inr 2)
     \<and> import_body demo_env c1 (Inr batch_terms) = (c2, Inr 2)
     \<and> ebind (Inr batch_terms) (reconcile demo_env) = Inr df
     \<and> all_terms demo_env df = Inr [''anxiety'', ''stress'', ''anxiety'']
     \<and> term_count (working terms_only_conn) ''anxiety'' = 0
     \<and> term_count (working c1) ''anxiety'' = 2
     \<and> term_count (working c2) ''anxiety'' = 4
     \<and> term_count (committed c2) ''anxiety'' = 4"
proof -
  define c1 where "c1 = fst (import_body demo_env terms_only_conn (Inr batch_terms))"
  define c2 where "c2 = fst (import_body demo_env c1 (Inr batch_terms))"
  have "snd (import_body demo_env terms_only_conn (Inr batch_terms)) = Inr 2" by code_simp
  then have b1: "import_body demo_env terms_only_conn (Inr batch_terms) = (c1, Inr 2)"
    unfolding c1_def by (metis prod.collapse)
  have "snd (import_body demo_env
               (fst (import_body demo_env terms_only_conn (Inr batch_terms)))
               (Inr batch_terms)) = Inr 2"
    by code_simp
  then have b2: "import_body demo_env c1 (Inr batch_terms) = (c2, Inr 2)"
    unfolding c2_def c1_def by (metis prod.collapse)
  have "\<not> isl (reconcile demo_env batch_terms)" by code_simp
  then obtain df where r: "ebind (Inr batch_terms) (reconcile demo_env) = Inr df"
    by (cases "reconcile demo_env batch_terms") (auto simp: ebind_def)
  have "ebind (reconcile demo_env batch_terms) (all_terms demo_env)
          = Inr [''anxiety'', ''stress'', ''anxiety'']"
    by code_simp
  with r have a: "all_terms demo_env df = Inr [''anxiety'', ''stress'', ''anxiety'']"
    by (simp add: ebind_def split: sum.splits)
  have z: "term_count (working terms_only_conn) ''anxiety'' = 0" by code_simp
  have k: "int (count_list [''anxiety'', ''stress'', ''anxiety''] ''anxiety'') = 2" by simp
  from term_counts_add_up
    [of demo_env terms_only_conn "Inr batch_terms" c1 2 c2 2 df
        "[''anxiety'', ''stress'', ''anxiety'']" "''anxiety''"]
    b1 b2 r a
  have "term_count (working c1) ''anxiety'' = 2" "term_count (working c2) ''anxiety'' = 4"
    "term_count (committed c2) ''anxiety'' = 4"
    unfolding z k by simp_all
  with b1 b2 r a z show ?thesis by blast
qed

subsection \<open>The groups of the user metrics\<close>

lemma norm_key_not_NaN: "u \<noteq> NaN \<Longrightarrow> norm_key u \<noteq> NaN"
  by (cases u) auto

lemma set_group_keys: "set (group_keys us) = norm_key ` {u \<in> set us. u \<noteq> NaN}"
  by (auto simp: group_keys_def isna_def)

lemma aggregate_groups_usernames:
  "aggregate_groups us ids pol com con rts favs = Inr um
     \<Longrightarrow> get_col ''username'' um = Inr (group_keys us)"
  unfolding aggregate_groups_def
  by (simp add: ebind_Inr split: if_split_asm) (auto simp: get_col_def)

lemma user_metrics_usernames:
  assumes "user_metrics_frame df = Inr um" "get_col ''username'' df = Inr us"
  shows "get_col ''username'' um = Inr (group_keys us)"
proof -
  from assms obtain ids pol com con rts favs where
    "aggregate_groups us ids pol com con rts favs = Inr um"
    unfolding user_metrics_frame_def by (auto simp: ebind_Inr)
  then show ?thesis by (rule aggregate_groups_usernames)
qed

lemma all_terms_ignores_username:
  "all_terms ev (set_col ''username'' v df) = all_terms ev df"
  by (simp add: all_terms_def frame_simps)




lemma group_keys_no_NaN: "NaN \<notin> set (group_keys us)"
proof
  assume "NaN \<in> set (group_keys us)"
  then have "NaN \<in> norm_key ` {u \<in> set us. u \<noteq> NaN}" by (simp only: set_group_keys)
  then show False
  proof (rule imageE)
    fix u assume e: "NaN = norm_key u" and m: "u \<in> {u \<in> set us. u \<noteq> NaN}"
    from m have "u \<noteq> NaN" by (rule CollectE) (erule conjunct2)
    then have "norm_key u \<noteq> NaN" by (rule norm_key_not_NaN)
    with e[symmetric] show False by (rule notE[rotated])
  qed
qed

lemma group_keys_empty_name: "Str '''' \<in> set us \<Longrightarrow> Str '''' \<in> set (group_keys us)"
proof -
  assume "Str '''' \<in> set us"
  moreover have "Str '''' \<noteq> NaN" by (rule cell.distinct)
  ultimately have "Str '''' \<in> {u \<in> set us. u \<noteq> NaN}" by (intro CollectI conjI)
  then have "norm_key (Str '''') \<in> norm_key ` {u \<in> set us. u \<noteq> NaN}" by (rule imageI)
  then show ?thesis by (simp only: set_group_keys norm_key.simps)
qed

text \<open>
  C9, as stated, fails: for a batch whose \<^verbatim>\<open>user\<close> column cannot be decoded every derived
  user name is the empty string, and the user metrics consist of one group for the empty
  author, which counts both rows and is written to the user-metrics table.
\<close>

theorem empty_author_gets_a_metrics_row:
  "ebind (reconcile demo_env batch_user) (get_col ''username'') = Inr [Str '''', Str '''']
   \<and> ebind (ebind (reconcile demo_env batch_user) user_metrics_frame) (get_col ''username'')
       = Inr [Str '''']
   \<and> ebind (ebind (reconcile demo_env batch_user) user_metrics_frame) (get_col ''tweet_count'')
       = Inr [Num 2]
   \<and> map_option (\<lambda>t. get_col ''username'' (tframe t))
         (tbl_user_metrics (committed (fst (import_processed_data demo_env terms_only_conn
                                              (Inr batch_user)))))
       = Some (Inr [Str ''''])"
  by code_simp

text \<open>
  C9, amended: the user metrics have exactly one group for every user name that occurs in
  the batch and is not missing. Only rows whose user name is missing (NaN) belong to no group;
  the empty string is a user name like any other, so rows with an empty author form a
  group of their own. The term aggregation does not read the author: whatever the user
  names are, the same terms are collected.
\<close>

theorem empty_author_is_a_group:
  "(user_metrics_frame df = Inr um \<and> get_col ''username'' df = Inr us
      \<longrightarrow> get_col ''username'' um = Inr (group_keys us)
          \<and> set (group_keys us) = norm_key ` {u \<in> set us. u \<noteq> NaN}
          \<and> distinct (group_keys us)
          \<and> NaN \<notin> set (group_keys us)
          \<and> (Str '''' \<in> set us \<longrightarrow> Str '''' \<in> set (group_keys us)))
   \<and> all_terms ev (set_col ''username'' v df) = all_terms ev df"
proof (intro conjI impI)
  assume "user_metrics_frame df = Inr um \<and> get_col ''username'' df = Inr us"
  then have "user_metrics_frame df = Inr um" "get_col ''username'' df = Inr us"
    by (rule conjunct1, rule conjunct2)
  then show "get_col ''username'' um = Inr (group_keys us)"
    by (rule user_metrics_usernames)
next
  show "set (group_keys us) = norm_key ` {u \<in> set us. u \<noteq> NaN}"
    by (rule set_group_keys)
next
  show "distinct (group_keys us)"
    by (simp add: group_keys_def)
next
  show "NaN \<notin> set (group_keys us)"
    by (rule group_keys_no_NaN)
next
  assume "Str '''' \<in> set us"
  then show "Str '''' \<in> set (group_keys us)" by (rule group_keys_empty_name)
next
  show "all_terms ev (set_col ''username'' v df) = all_terms ev df"
    by (rule all_terms_ignores_username)
qed

theorem empty_author_is_a_group_witness:
  "\<exists>df um.
     reconcile demo_env batch_user = Inr df \<and> user_metrics_frame df = Inr um
     \<and> get_col ''username'' df = Inr [Str '''', Str '''']
     \<and> Str '''' \<in> set [Str '''', Str '''']
     \<and> get_col ''username'' um = Inr (group_keys [Str '''', Str ''''])
     \<and> Str '''' \<in> set (group_keys [Str '''', Str ''''])"
proof -
  have "\<not> isl (reconcile demo_env batch_user)" by code_simp
  then obtain df where r: "reconcile demo_env batch_user = Inr df"
    by (cases "reconcile demo_env batch_user") auto
  have "\<not> isl (ebind (reconcile demo_env batch_user) user_metrics_frame)" by code_simp
  then obtain um where u: "user_metrics_frame df = Inr um"
    using r by (cases "user_metrics_frame df") (auto simp: ebind_def)
  have "ebind (reconcile demo_env batch_user) (get_col ''username'')
          = Inr [Str '''', Str '''']"
    by code_simp
  with r have g: "get_col ''username'' df = Inr [Str '''', Str '''']"
    by (simp add: ebind_def)
  have m: "Str '''' \<in> set [Str '''', Str '''']" by simp
  from empty_author_is_a_group
    [where df = df and um = um and us = "[Str '''', Str '''']" and ev = demo_env] r u g m
  have "get_col ''username'' um = Inr (group_keys [Str '''', Str ''''])"
    "Str '''' \<in> set (group_keys [Str '''', Str ''''])"
    by blast+
  with r u g m show ?thesis by blast
qed

end
